theory Spec2Isabelle
  imports Main "HOL-Library.Sublist" "HOL-Library.Signed_Division" "HOL-Library.Word"
begin

section \<open>The qcdn failover proxy (qcdn.go)\<close>

text \<open>
  A shallow embedding of \<^verbatim>\<open>qcdn.go\<close>. Go structs are records, Go maps are partial
  functions, a panic is a value of type \<open>panic\<close>, and the mutable receiver \<open>p\<close>, the
  response writer \<open>w\<close> and the request \<open>req\<close> are passed in and returned updated.
  The Go standard library (\<^verbatim>\<open>net/url\<close>, \<^verbatim>\<open>net/http\<close>) is the environment of the
  program: what the proxy needs of it is collected in the record \<open>stdlib\<close> and in the
  definitions of the subsection on the HTTP client.
\<close>

subsection \<open>Data model\<close>

text \<open>\<^verbatim>\<open>type urlBase struct { scheme, host string }\<close>\<close>

record urlBase =
  scheme :: string
  host :: string

text \<open>\<^verbatim>\<open>type resource struct { urlBase; path string }\<close>\<close>

record resource =
  urlBase :: urlBase
  path :: string

text \<open>\<^verbatim>\<open>type urlStrategy struct { backup urlBase; boot urlBase }\<close>\<close>

record urlStrategy =
  backup :: urlBase
  boot :: urlBase

text \<open>\<^verbatim>\<open>type QcdnStrategy struct { Backup string; Boot string }\<close>\<close>

record QcdnStrategy =
  Backup :: string
  Boot :: string

text \<open>\<^verbatim>\<open>type QcdnConfig struct { Timeout int }\<close>, a 64-bit Go \<^verbatim>\<open>int\<close> of milliseconds.\<close>

record QcdnConfig =
  Timeout :: "64 word"

text \<open>A Go panic: a run-time error of the language, or an explicit \<^verbatim>\<open>panic(msg)\<close>.\<close>

datatype panic = RuntimeError string | Panic string

type_synonym error = string

subsection \<open>The environment: URLs, requests, responses, the HTTP client\<close>

text \<open>The fields of \<^verbatim>\<open>url.URL\<close> that the proxy reads or writes, and the query string.\<close>

record URL =
  Scheme :: string
  Host :: string
  Path :: string
  RawQuery :: string

text \<open>
  \<^verbatim>\<open>http.Request\<close>: the URL (\<^verbatim>\<open>req.URL\<close> is a pointer, so \<^verbatim>\<open>url := req.URL\<close> followed by
  an assignment to a field of \<^verbatim>\<open>url\<close> updates the request), \<^verbatim>\<open>req.Host\<close> and
  \<^verbatim>\<open>req.RequestURI\<close>.
\<close>

record Request =
  URL :: URL
  ReqHost :: string
  RequestURI :: string

text \<open>\<^verbatim>\<open>http.Response\<close>: status code, header (keys with their values), body.\<close>

record Response =
  StatusCode :: int
  Header :: "(string \<times> string list) list"
  Body :: string

text \<open>
  One round trip of the transport: a network error (also a timeout), a response that
  the client returns to its caller, or a redirect response together with the URL its
  \<^verbatim>\<open>Location\<close> header resolves to, which the client follows subject to its
  redirect policy.
\<close>

datatype hop = Fail error | Final Response | Redir Response URL

text \<open>
  \<^verbatim>\<open>http.Client\<close>. The transport acts on the state of the network \<open>'w\<close>.
  \<^verbatim>\<open>CheckRedirect\<close> is \<open>None\<close> for Go's \<^verbatim>\<open>nil\<close>; a function stored there may be a
  closure over a variable of type \<^verbatim>\<open>*http.Request\<close> (\<open>None\<close> for \<^verbatim>\<open>nil\<close>), which is
  passed in and returned.
\<close>

record 'w Client =
  Transport :: "'w \<Rightarrow> Request \<Rightarrow> hop \<times> 'w"
  CheckRedirect ::
    "(Request \<Rightarrow> Request list \<Rightarrow> Request option \<Rightarrow> error option \<times> Request option) option"
  ClientTimeout :: "64 word"

text \<open>
  The policy of \<^verbatim>\<open>net/http\<close> for a client whose \<^verbatim>\<open>CheckRedirect\<close> is \<^verbatim>\<open>nil\<close>:
  stop after 10 consecutive requests.
\<close>

definition defaultCheckRedirect :: "Request \<Rightarrow> Request list \<Rightarrow> error option" where
  "defaultCheckRedirect req via =
     (if length via \<ge> 10 then Some ''stopped after 10 redirects'' else None)"

text \<open>
  The redirect loop of \<^verbatim>\<open>Client.Do\<close>. \<open>reqs\<close> are the requests sent so far, \<open>req\<close> is
  the next one; the state is the network and the variable the redirect policy closes
  over. The result is Go's pair \<^verbatim>\<open>(resp, err)\<close>, the requests sent, and the new state.
  A request with a non-empty \<^verbatim>\<open>RequestURI\<close> is refused without being sent. When the policy
  returns an error, \<^verbatim>\<open>Do\<close> returns the redirect response together with the error. Go's
  loop has no bound of its own, so the function is partial: \<open>None\<close> is a loop that never
  returns.
\<close>

partial_function (option) do_loop ::
  "'w Client \<Rightarrow> Request list \<Rightarrow> Request \<Rightarrow> 'w \<times> Request option \<Rightarrow>
     ((Response option \<times> error option) \<times> Request list \<times> 'w \<times> Request option) option"
where
  "do_loop c reqs req s =
    (case s of (world, lastv) \<Rightarrow>
      if RequestURI req \<noteq> [] then
        Some ((None, Some ''http: Request.RequestURI can't be set in client requests''), reqs, world, lastv)
      else
      (let reqs' = reqs @ [req] in
       case Transport c world req of
         (Fail e, world') \<Rightarrow> Some ((None, Some e), reqs', world', lastv)
       | (Final resp, world') \<Rightarrow> Some ((Some resp, None), reqs', world', lastv)
       | (Redir resp u, world') \<Rightarrow>
           (let req' = \<lparr>URL = u, ReqHost = [], RequestURI = []\<rparr> in
            case (case CheckRedirect c of
                    None \<Rightarrow> (defaultCheckRedirect req' reqs', lastv)
                  | Some f \<Rightarrow> f req' reqs' lastv) of
              (Some e, lastv') \<Rightarrow> Some ((Some resp, Some e), reqs', world', lastv')
            | (None, lastv') \<Rightarrow> do_loop c reqs' req' (world', lastv'))))"

declare do_loop.simps [code]

text \<open>\<^verbatim>\<open>client.Do(req)\<close>\<close>

definition client_Do ::
  "'w Client \<Rightarrow> Request \<Rightarrow> 'w \<times> Request option \<Rightarrow>
     ((Response option \<times> error option) \<times> Request list \<times> 'w \<times> Request option) option" where
  "client_Do c req s = do_loop c [] req s"

text \<open>
  \<^verbatim>\<open>http.ResponseWriter\<close> as the server implements it: the header map
  (\<^verbatim>\<open>w.Header()\<close>, a key without values maps to the empty list), whether the status line
  has been written, and the calls of \<^verbatim>\<open>WriteHeader\<close> and \<^verbatim>\<open>Write\<close> in the order they
  were made.
\<close>

datatype wcall = WriteHeader int | Write string

record ResponseWriter =
  header :: "string \<Rightarrow> string list"
  wroteHeader :: bool
  written :: "wcall list"

text \<open>\<^verbatim>\<open>dst.Add(k, v)\<close> for a key in canonical form\<close>

definition Header_Add :: "(string \<Rightarrow> string list) \<Rightarrow> string \<Rightarrow> string \<Rightarrow> (string \<Rightarrow> string list)" where
  "Header_Add dst k v = dst(k := dst k @ [v])"

text \<open>
  \<^verbatim>\<open>w.WriteHeader(code)\<close>. Once the status line has been written a further call has no
  effect (the server logs it as superfluous). Otherwise the server checks the code and
  panics unless it has three digits, \<open>100 \<le> code \<le> 999\<close>; the message of the panic also
  names the code, which is left out here. (Recent servers send a code from 100 to 199
  other than 101 at once as an informational response and set the flag at the next
  write; the transport of these versions hands no such response to the client, and
  \<^verbatim>\<open>serveRequest\<close> calls \<^verbatim>\<open>Write\<close> next in any case.)
\<close>

definition w_WriteHeader :: "ResponseWriter \<Rightarrow> int \<Rightarrow> panic + ResponseWriter" where
  "w_WriteHeader w code =
     (if wroteHeader w then Inr (w\<lparr>written := written w @ [WriteHeader code]\<rparr>)
      else if code < 100 \<or> code > 999 then Inl (Panic ''invalid WriteHeader code'')
      else Inr (w\<lparr>wroteHeader := True, written := written w @ [WriteHeader code]\<rparr>))"

text \<open>
  \<^verbatim>\<open>w.Write(data)\<close>; it writes the status line with code 200 first if none has been
  written. \<^verbatim>\<open>io.Copy(w, body)\<close> is one such call with the whole body.
\<close>

definition w_Write :: "ResponseWriter \<Rightarrow> string \<Rightarrow> ResponseWriter" where
  "w_Write w bs = w\<lparr>wroteHeader := True, written := written w @ [Write bs]\<rparr>"

text \<open>
  \<^verbatim>\<open>http.Error(w, msg, code)\<close>: sets the content type, calls \<^verbatim>\<open>WriteHeader\<close> and writes
  the message followed by a newline. The handler passes the code 500 only, which
  \<^verbatim>\<open>WriteHeader\<close> accepts, so the call returns.
\<close>

definition http_Error :: "ResponseWriter \<Rightarrow> string \<Rightarrow> int \<Rightarrow> ResponseWriter" where
  "http_Error w msg code =
     w\<lparr>header := (header w)(''Content-Type'' := [''text/plain; charset=utf-8''],
                             ''X-Content-Type-Options'' := [''nosniff'']),
       wroteHeader := True,
       written := written w @ [WriteHeader code, Write (msg @ [CHR 0x0A])]\<rparr>"

text \<open>
  What \<^verbatim>\<open>MakeVodURL\<close>, \<^verbatim>\<open>SetStrategy\<close> and \<^verbatim>\<open>NewQcdnProxy\<close> take from the library:
  \<^verbatim>\<open>url.Parse\<close> (\<open>None\<close> when it returns an error), \<^verbatim>\<open>URL.String\<close>, the URL that
  \<^verbatim>\<open>httptest\<close> gives the started server, and \<^verbatim>\<open>http.DefaultTransport\<close>.
\<close>

record 'w stdlib =
  url_Parse :: "string \<Rightarrow> URL option"
  url_String :: "URL \<Rightarrow> string"
  server_URL :: string
  DefaultTransport :: "'w \<Rightarrow> Request \<Rightarrow> hop \<times> 'w"

text \<open>\<^verbatim>\<open>strings.TrimPrefix(s, prefix)\<close>\<close>

definition TrimPrefix :: "string \<Rightarrow> string \<Rightarrow> string" where
  "TrimPrefix s pre = (if prefix pre s then drop (length pre) s else s)"

text \<open>
  \<^verbatim>\<open>strings.SplitN(s, sep, n)\<close> for a separator of one byte and \<open>n \<ge> 0\<close>: at most \<open>n\<close>
  substrings, the last one the unsplit remainder.
\<close>

fun SplitN :: "string \<Rightarrow> char \<Rightarrow> nat \<Rightarrow> string list" where
  "SplitN s sep 0 = []"
| "SplitN s sep (Suc 0) = [s]"
| "SplitN s sep (Suc (Suc n)) =
     (if sep \<in> set s
      then takeWhile (\<lambda>c. c \<noteq> sep) s # SplitN (tl (dropWhile (\<lambda>c. c \<noteq> sep) s)) sep (Suc n)
      else [s])"

subsection \<open>The proxy\<close>

text \<open>
  \<^verbatim>\<open>type QcdnProxy struct\<close>. \<open>server\<close> is \<open>None\<close> for \<^verbatim>\<open>nil\<close> and otherwise holds the URL
  of the running test server; \<open>init\<close> tells whether the \<^verbatim>\<open>sync.Once\<close> has run. The
  mutex has no state between two operations and is left out.
\<close>

record 'w QcdnProxy =
  proxyHost :: string
  server :: "string option"
  init :: bool
  strategies :: "urlBase \<rightharpoonup> urlStrategy"
  redirects :: "resource \<rightharpoonup> resource"
  client :: "'w Client"

text \<open>
  \<^verbatim>\<open>NewQcdnProxy\<close>. The timeout in milliseconds becomes a \<^verbatim>\<open>time.Duration\<close> in
  nanoseconds; the product is taken in 64-bit arithmetic and wraps around.
\<close>

definition NewQcdnProxy :: "'w stdlib \<Rightarrow> QcdnConfig option \<Rightarrow> 'w QcdnProxy" where
  "NewQcdnProxy lib conf =
     (let conf = (case conf of None \<Rightarrow> \<lparr>Timeout = 0\<rparr> | Some c \<Rightarrow> c) in
      \<lparr>proxyHost = [], server = None, init = False,
       strategies = Map.empty, redirects = Map.empty,
       client = \<lparr>Transport = DefaultTransport lib, CheckRedirect = None,
                 ClientTimeout = Timeout conf * 1000000\<rparr>\<rparr>)"

definition Close :: "'w QcdnProxy \<Rightarrow> 'w QcdnProxy" where
  "Close p = (case server p of Some s \<Rightarrow> p\<lparr>server := None\<rparr> | None \<Rightarrow> p)"

definition urlBaseOf :: "'w stdlib \<Rightarrow> string \<Rightarrow> panic + urlBase" where
  "urlBaseOf lib urlBaseStr =
     (case url_Parse lib urlBaseStr of
        None \<Rightarrow> Inl (Panic ''invalid urlBase'')
      | Some url \<Rightarrow>
          if Path url \<noteq> [] then Inl (Panic ''invalid urlBase'')
          else Inr \<lparr>scheme = Scheme url, host = Host url\<rparr>)"

text \<open>
  \<^verbatim>\<open>SetStrategy\<close> returns the panic, if any, and the proxy as the call leaves it. The
  three calls of \<^verbatim>\<open>urlBaseOf\<close> are evaluated before the assignment to the map. \<open>s\<close> is
  a pointer: \<open>None\<close> is \<^verbatim>\<open>nil\<close>, which is dereferenced after the first call.
\<close>

definition SetStrategy ::
  "'w stdlib \<Rightarrow> 'w QcdnProxy \<Rightarrow> string \<Rightarrow> QcdnStrategy option \<Rightarrow> panic option \<times> 'w QcdnProxy" where
  "SetStrategy lib p urlBaseStr s =
     (case urlBaseOf lib urlBaseStr of
        Inl e \<Rightarrow> (Some e, p)
      | Inr ub \<Rightarrow>
         (case s of
            None \<Rightarrow> (Some (RuntimeError ''nil pointer dereference''), p)
          | Some s \<Rightarrow>
             (case urlBaseOf lib (Backup s) of
                Inl e \<Rightarrow> (Some e, p)
              | Inr bk \<Rightarrow>
                 (case urlBaseOf lib (Boot s) of
                    Inl e \<Rightarrow> (Some e, p)
                  | Inr bt \<Rightarrow>
                      (None, p\<lparr>strategies := (strategies p)(ub \<mapsto> \<lparr>backup = bk, boot = bt\<rparr>)\<rparr>)))))"

definition makeProxyPath :: "string \<Rightarrow> string \<Rightarrow> string \<Rightarrow> string" where
  "makeProxyPath sch hst pth = ''/'' @ sch @ '','' @ hst @ pth"

text \<open>
  \<^verbatim>\<open>parseProxyPath\<close>. The slice \<^verbatim>\<open>proxyPath[1:]\<close> panics on the empty string. The
  early returns give the zero resource and \<^verbatim>\<open>ok = false\<close>.
\<close>

definition zero_resource :: resource where
  "zero_resource = \<lparr>urlBase = \<lparr>scheme = [], host = []\<rparr>, path = []\<rparr>"

definition parseProxyPath :: "string \<Rightarrow> panic + resource \<times> bool" where
  "parseProxyPath proxyPath =
     (case proxyPath of
        [] \<Rightarrow> Inl (RuntimeError ''slice bounds out of range [1:0]'')
      | c # rest \<Rightarrow>
         (let parts = SplitN rest (CHR ''/'') 2 in
          if length parts \<noteq> 2 then Inr (zero_resource, False)
          else
           (let schemeAndHost = SplitN (parts ! 0) (CHR '','') 2 in
            if length schemeAndHost \<noteq> 2 then Inr (zero_resource, False)
            else
             (let ub = \<lparr>scheme = schemeAndHost ! 0, host = schemeAndHost ! 1\<rparr>
              in Inr (\<lparr>urlBase = ub, path = ''/'' @ parts ! 1\<rparr>, True)))))"

definition getProxyHost :: "'w stdlib \<Rightarrow> 'w QcdnProxy \<Rightarrow> string \<times> 'w QcdnProxy" where
  "getProxyHost lib p =
     (let p = (if init p then p
               else p\<lparr>server := Some (server_URL lib),
                      proxyHost := TrimPrefix (server_URL lib) ''http://'',
                      init := True\<rparr>)
      in (proxyHost p, p))"

definition MakeVodURL :: "'w stdlib \<Rightarrow> 'w QcdnProxy \<Rightarrow> string \<Rightarrow> int \<Rightarrow> string \<times> 'w QcdnProxy" where
  "MakeVodURL lib p urlVod bootLen =
     (case url_Parse lib urlVod of
        None \<Rightarrow> (urlVod, p)
      | Some url \<Rightarrow>
         (case strategies p \<lparr>scheme = Scheme url, host = Host url\<rparr> of
            None \<Rightarrow> (urlVod, p)
          | Some _ \<Rightarrow>
             (let url = url\<lparr>Path := makeProxyPath (Scheme url) (Host url) (Path url)\<rparr>;
                  url = url\<lparr>Scheme := ''http''\<rparr>;
                  (h, p) = getProxyHost lib p;
                  url = url\<lparr>Host := h\<rparr>
              in (url_String lib url, p))))"

definition redirectOf :: "'w QcdnProxy \<Rightarrow> resource \<Rightarrow> resource \<times> bool" where
  "redirectOf p uri =
     (case redirects p uri of Some ret \<Rightarrow> (ret, True) | None \<Rightarrow> (zero_resource, False))"

definition setRedirect :: "'w QcdnProxy \<Rightarrow> resource \<Rightarrow> resource \<Rightarrow> 'w QcdnProxy" where
  "setRedirect p uri to = p\<lparr>redirects := (redirects p)(uri \<mapsto> to)\<rparr>"

text \<open>\<^verbatim>\<open>copyHeader\<close>: each of the two nested iterations is a fold; Go visits the keys in some order.\<close>

definition copyHeader ::
  "(string \<Rightarrow> string list) \<Rightarrow> (string \<times> string list) list \<Rightarrow> (string \<Rightarrow> string list)" where
  "copyHeader dst src = fold (\<lambda>(k, vv) d. fold (\<lambda>v d. Header_Add d k v) vv d) src dst"

text \<open>
  The network as one handler invocation sees it: its state, and for every call of
  \<^verbatim>\<open>client.Do\<close> made so far the requests it sent and what it returned.
\<close>

record exchange =
  ex_reqs :: "Request list"
  ex_resp :: "Response option"
  ex_err :: "error option"

record 'w net =
  world :: 'w
  exchanges :: "exchange list"

text \<open>
  \<^verbatim>\<open>serveRequest\<close> returns its boolean, the writer, the network and the variable
  that the client's redirect policy closes over, or the panic of \<^verbatim>\<open>w.WriteHeader\<close>,
  which is raised after the header has been copied and before the body is. The
  division is Go's, which truncates.
\<close>

definition serveRequest ::
  "'w Client \<Rightarrow> ResponseWriter \<Rightarrow> Request \<Rightarrow> 'w net \<Rightarrow> Request option \<Rightarrow>
     (panic + bool \<times> ResponseWriter \<times> 'w net \<times> Request option) option" where
  "serveRequest c w req nt lastv =
     (case client_Do c req (world nt, lastv) of
        None \<Rightarrow> None
      | Some ((resp, err), reqs, world', lastv') \<Rightarrow>
         (let nt' = \<lparr>world = world',
                     exchanges = exchanges nt @ [\<lparr>ex_reqs = reqs, ex_resp = resp, ex_err = err\<rparr>]\<rparr>
          in case (err, resp) of
               (None, Some r) \<Rightarrow>
                 if StatusCode r sdiv 100 \<noteq> 5 then
                   (case w_WriteHeader (w\<lparr>header := copyHeader (header w) (Header r)\<rparr>)
                           (StatusCode r) of
                      Inl e \<Rightarrow> Some (Inl e)
                    | Inr w1 \<Rightarrow> Some (Inr (True, w_Write w1 (Body r), nt', lastv')))
                 else Some (Inr (False, w, nt', lastv'))
             | _ \<Rightarrow> Some (Inr (False, w, nt', lastv'))))"

text \<open>What a handler invocation that returns leaves behind.\<close>

record 'w outcome =
  proxy :: "'w QcdnProxy"
  writer :: ResponseWriter
  request :: Request
  network :: "'w net"

text \<open>The function literal that \<^verbatim>\<open>handle\<close> stores in \<^verbatim>\<open>client.CheckRedirect\<close>; it closes over \<^verbatim>\<open>last\<close>.\<close>

definition checkRedirect ::
  "Request \<Rightarrow> Request list \<Rightarrow> Request option \<Rightarrow> error option \<times> Request option" where
  "checkRedirect req via lastv =
     (if length via \<ge> 10 then (Some ''stopped after 10 redirects'', lastv)
      else (None, Some req))"

text \<open>
  \<^verbatim>\<open>handle\<close>, from the strategy lookup to the end of the function (the backup step).
  A panic of \<^verbatim>\<open>serveRequest\<close> unwinds the handler; it is raised before any write to the
  redirect cache.
\<close>

definition handle_backup ::
  "'w QcdnProxy \<Rightarrow> ResponseWriter \<Rightarrow> Request \<Rightarrow> resource \<Rightarrow> 'w net \<Rightarrow>
     (panic + 'w outcome) option" where
  "handle_backup p w req uri nt =
     (case strategies p (urlBase uri) of
        None \<Rightarrow>
          Some (Inr \<lparr>proxy = p, writer = http_Error w ''url strategy not found'' 500,
                     request = req, network = nt\<rparr>)
      | Some s \<Rightarrow>
          if Host (URL req) \<noteq> host (backup s) then
            (let req = req\<lparr>URL := (URL req)\<lparr>Path := path uri, Scheme := scheme (backup s),
                                             Host := host (backup s)\<rparr>\<rparr>;
                 req = req\<lparr>ReqHost := Host (URL req)\<rparr>
             in case serveRequest (client p) w req nt None of
                  None \<Rightarrow> None
                | Some (Inl e) \<Rightarrow> Some (Inl e)
                | Some (Inr (ok, w', nt', _)) \<Rightarrow>
                    if ok then
                      Some (Inr \<lparr>proxy = setRedirect p uri \<lparr>urlBase = backup s, path = path uri\<rparr>,
                                 writer = w', request = req, network = nt'\<rparr>)
                    else
                      Some (Inr \<lparr>proxy = p,
                                 writer = http_Error w' ''both main and backup server fail'' 500,
                                 request = req, network = nt'\<rparr>))
          else
            Some (Inr \<lparr>proxy = p,
                       writer = http_Error w ''both main and backup server fail'' 500,
                       request = req, network = nt\<rparr>))"

text \<open>\<^verbatim>\<open>handle\<close>\<close>

definition handle ::
  "'w QcdnProxy \<Rightarrow> ResponseWriter \<Rightarrow> Request \<Rightarrow> 'w net \<Rightarrow> (panic + 'w outcome) option" where
  "handle p w req nt =
     (case parseProxyPath (Path (URL req)) of
        Inl e \<Rightarrow> Some (Inl e)
      | Inr (uri, ok) \<Rightarrow>
          if \<not> ok then
            Some (Inr \<lparr>proxy = p, writer = http_Error w ''invalid proxy path'' 500,
                       request = req, network = nt\<rparr>)
          else
           (case redirectOf p uri of
              (uriRedirect, True) \<Rightarrow>
                (let req = req\<lparr>URL := (URL req)\<lparr>Path := path uriRedirect,
                                                Scheme := scheme (urlBase uriRedirect),
                                                Host := host (urlBase uriRedirect)\<rparr>\<rparr>;
                     req = req\<lparr>ReqHost := Host (URL req), RequestURI := []\<rparr>
                 in case serveRequest (client p) w req nt None of
                      None \<Rightarrow> None
                    | Some (Inl e) \<Rightarrow> Some (Inl e)
                    | Some (Inr (ok, w', nt', _)) \<Rightarrow>
                        if ok then
                          Some (Inr \<lparr>proxy = p, writer = w', request = req, network = nt'\<rparr>)
                        else handle_backup p w' req uri nt')
            | (_, False) \<Rightarrow>
                (let req = req\<lparr>URL := (URL req)\<lparr>Path := path uri,
                                                Scheme := scheme (urlBase uri),
                                                Host := host (urlBase uri)\<rparr>\<rparr>;
                     req = req\<lparr>ReqHost := Host (URL req), RequestURI := []\<rparr>;
                     lastv = None;
                     client' = (client p)\<lparr>CheckRedirect := Some checkRedirect\<rparr>
                 in case serveRequest client' w req nt lastv of
                      None \<Rightarrow> None
                    | Some (Inl e) \<Rightarrow> Some (Inl e)
                    | Some (Inr (ok, w', nt', lastv')) \<Rightarrow>
                       (case (ok, lastv') of
                          (True, Some lst) \<Rightarrow>
                            (let lastURL = URL lst;
                                 ub = \<lparr>scheme = Scheme lastURL, host = Host lastURL\<rparr>
                             in Some (Inr \<lparr>proxy = setRedirect p uri
                                                     \<lparr>urlBase = ub, path = Path lastURL\<rparr>,
                                           writer = w', request = req, network = nt'\<rparr>))
                        | _ \<Rightarrow> handle_backup p w' req uri nt'))))"

subsection \<open>Observations on a handler invocation\<close>

text \<open>The requests that reached the network, in order, and the calls on the response writer.\<close>

definition upstream_requests :: "(panic + 'w outcome) option \<Rightarrow> Request list" where
  "upstream_requests res =
     (case res of Some (Inr out) \<Rightarrow> concat (map ex_reqs (exchanges (network out))) | _ \<Rightarrow> [])"

definition client_sees :: "(panic + 'w outcome) option \<Rightarrow> wcall list" where
  "client_sees res = (case res of Some (Inr out) \<Rightarrow> written (writer out) | _ \<Rightarrow> [])"

text \<open>
  A response streamed back verbatim: under every key the values of the response are
  added, in their order, to those the writer had; the status line is written with the
  status of the response; the body is written.
\<close>

definition streamed :: "ResponseWriter \<Rightarrow> Response \<Rightarrow> ResponseWriter" where
  "streamed w r =
     w\<lparr>header := (\<lambda>k. header w k @ concat (map snd (filter (\<lambda>kv. fst kv = k) (Header r)))),
       wroteHeader := True,
       written := written w @ [WriteHeader (StatusCode r), Write (Body r)]\<rparr>"

text \<open>The request after \<^verbatim>\<open>handle\<close> has pointed it at a resource (five assignments).\<close>

definition retarget :: "Request \<Rightarrow> resource \<Rightarrow> Request" where
  "retarget req r =
     req\<lparr>URL := (URL req)\<lparr>Path := path r, Scheme := scheme (urlBase r),
                           Host := host (urlBase r)\<rparr>,
         ReqHost := host (urlBase r), RequestURI := []\<rparr>"




text \<open>A request is addressed to a resource.\<close>

definition targets :: "Request \<Rightarrow> resource \<Rightarrow> bool" where
  "targets req r \<longleftrightarrow>
     Scheme (URL req) = scheme (urlBase r) \<and> Host (URL req) = host (urlBase r) \<and>
     Path (URL req) = path r"

text \<open>
  A call of \<^verbatim>\<open>client.Do\<close> was a successful fetch (a response, no error, not a 5xx
  status); it started at resource \<open>k\<close> and followed a redirect; it started at the backup
  origin configured for \<open>k\<close>.
\<close>

definition fetch_ok :: "exchange \<Rightarrow> bool" where
  "fetch_ok e \<longleftrightarrow>
     ex_err e = None \<and> (case ex_resp e of Some r \<Rightarrow> StatusCode r sdiv 100 \<noteq> 5 | None \<Rightarrow> False)"

definition observed_redirect :: "resource \<Rightarrow> exchange \<Rightarrow> bool" where
  "observed_redirect k e \<longleftrightarrow>
     (case ex_reqs e of r1 # r2 # _ \<Rightarrow> targets r1 k | _ \<Rightarrow> False)"

definition to_backup :: "'w QcdnProxy \<Rightarrow> resource \<Rightarrow> exchange \<Rightarrow> bool" where
  "to_backup p k e \<longleftrightarrow>
     (case strategies p (urlBase k) of
        Some s \<Rightarrow> (case ex_reqs e of
                     r1 # _ \<Rightarrow> targets r1 \<lparr>urlBase = backup s, path = path k\<rparr>
                   | [] \<Rightarrow> False)
      | None \<Rightarrow> False)"

subsection \<open>The operations of the proxy and its reachable states\<close>

text \<open>
  The operations on a proxy: the three exported methods, and the handler run on a
  request with a fresh response writer in some state of the network. An operation that
  panics leaves the proxy as it was when the panic was raised.
\<close>

datatype 'w op =
    OpSetStrategy string "QcdnStrategy option"
  | OpMakeVodURL string int
  | OpHandle ResponseWriter Request 'w
  | OpClose

fun is_handle :: "'w op \<Rightarrow> bool" where
  "is_handle (OpHandle w req wd) = True"
| "is_handle _ = False"

fun exec :: "'w stdlib \<Rightarrow> 'w QcdnProxy \<Rightarrow> 'w op \<Rightarrow> 'w QcdnProxy" where
  "exec lib p (OpSetStrategy u s) = snd (SetStrategy lib p u s)"
| "exec lib p (OpMakeVodURL u n) = snd (MakeVodURL lib p u n)"
| "exec lib p (OpHandle w req wd) =
     (case handle p w req \<lparr>world = wd, exchanges = []\<rparr> of
        Some (Inr out) \<Rightarrow> proxy out
      | _ \<Rightarrow> p)"
| "exec lib p OpClose = Close p"

definition run :: "'w stdlib \<Rightarrow> QcdnConfig option \<Rightarrow> 'w op list \<Rightarrow> 'w QcdnProxy" where
  "run lib conf ops = foldl (exec lib) (NewQcdnProxy lib conf) ops"

text \<open>
  Operation \<open>op\<close>, run on proxy \<open>p\<close>, is a handler invocation for resource \<open>k\<close> that
  completed a successful fetch which observed a redirect or went to the backup origin.
\<close>

definition resolves :: "'w QcdnProxy \<Rightarrow> 'w op \<Rightarrow> resource \<Rightarrow> bool" where
  "resolves p op k \<longleftrightarrow>
     (case op of
        OpHandle w req wd \<Rightarrow>
          parseProxyPath (Path (URL req)) = Inr (k, True) \<and>
          (case handle p w req \<lparr>world = wd, exchanges = []\<rparr> of
             Some (Inr out) \<Rightarrow>
               list_ex (\<lambda>e. fetch_ok e \<and> (observed_redirect k e \<or> to_backup p k e))
                 (exchanges (network out))
           | _ \<Rightarrow> False)
      | _ \<Rightarrow> False)"

subsection \<open>A test bench\<close>

text \<open>
  A small network in the manner of \<^verbatim>\<open>qcdn_test.go\<close>: host \<open>a\<close> answers 200, host \<open>f\<close>
  answers 500, host \<open>c\<close> redirects to host \<open>d\<close>, host \<open>loop\<close> redirects to itself, hosts
  \<open>b\<close> and \<open>d\<close> answer 200, host \<open>t\<close> answers 200 in the first two round trips of the
  network and with the status line \<^verbatim>\<open>042\<close> afterwards, and no other host exists. The
  state of the network counts the round trips.
\<close>

definition ex_url :: "string \<Rightarrow> string \<Rightarrow> URL" where
  "ex_url h pth = \<lparr>Scheme = ''http'', Host = h, Path = pth, RawQuery = []\<rparr>"

definition ex_reply :: "int \<Rightarrow> string \<Rightarrow> Response" where
  "ex_reply code body = \<lparr>StatusCode = code, Header = [(''Content-Type'', [''text/plain''])], Body = body\<rparr>"

definition ex_transport :: "nat \<Rightarrow> Request \<Rightarrow> hop \<times> nat" where
  "ex_transport n req =
     (let h = Host (URL req) in
      (if h = ''a'' then Final (ex_reply 200 ''ok'')
       else if h = ''f'' then Final (ex_reply 500 ''fail'')
       else if h = ''c'' then Redir (ex_reply 302 []) (ex_url ''d'' ''/z'')
       else if h = ''d'' then Final (ex_reply 200 ''final'')
       else if h = ''loop'' then Redir (ex_reply 302 []) (ex_url ''loop'' ''/again'')
       else if h = ''b'' then Final (ex_reply 200 ''backup'')
       else if h = ''t'' then Final (ex_reply (if n < 2 then 200 else 42) ''turn'')
       else Fail ''no such host'',
       Suc n))"

text \<open>The values of \<^verbatim>\<open>url.Parse\<close> on the strings the test bench uses; \<open>::\<close> does not parse.\<close>

definition ex_lib :: "nat stdlib" where
  "ex_lib =
     \<lparr>url_Parse = map_of
        [([], \<lparr>Scheme = [], Host = [], Path = [], RawQuery = []\<rparr>),
         (''http://a'', ex_url ''a'' []),
         (''http://b'', ex_url ''b'' []),
         (''http://f'', ex_url ''f'' []),
         (''http://c'', ex_url ''c'' []),
         (''http://loop'', ex_url ''loop'' []),
         (''http://g'', ex_url ''g'' []),
         (''http://t'', ex_url ''t'' []),
         (''http://b/'', ex_url ''b'' ''/''),
         (''http://a/x'', ex_url ''a'' ''/x''),
         (''http://other/x'', ex_url ''other'' ''/x'')],
      url_String = (\<lambda>u. Scheme u @ ''://'' @ Host u @ Path u),
      server_URL = ''http://127.0.0.1:9000'',
      DefaultTransport = ex_transport\<rparr>"

definition ex_strategy :: "string \<Rightarrow> QcdnStrategy option" where
  "ex_strategy b = Some \<lparr>Backup = b, Boot = []\<rparr>"

text \<open>An incoming request for a proxy path, as the server hands it to the handler.\<close>

definition ex_req :: "string \<Rightarrow> Request" where
  "ex_req pth =
     \<lparr>URL = \<lparr>Scheme = [], Host = [], Path = pth, RawQuery = []\<rparr>,
      ReqHost = ''127.0.0.1:9000'', RequestURI = pth\<rparr>"

definition ex_w :: ResponseWriter where
  "ex_w = \<lparr>header = (\<lambda>k. []), wroteHeader = False, written = []\<rparr>"

text \<open>
  A proxy with backup \<open>b\<close> configured for the origins \<open>a\<close>, \<open>c\<close> and \<open>loop\<close>, and backup
  \<open>c\<close> for the origin \<open>f\<close>; and the same proxy after it has served \<open>/x\<close> of origin \<open>f\<close>.
\<close>

definition ex_ops :: "nat op list" where
  "ex_ops =
     [OpSetStrategy ''http://a'' (ex_strategy ''http://b''),
      OpSetStrategy ''http://f'' (ex_strategy ''http://c''),
      OpSetStrategy ''http://c'' (ex_strategy ''http://b''),
      OpSetStrategy ''http://loop'' (ex_strategy ''http://b'')]"

definition ex_proxy :: "nat QcdnProxy" where
  "ex_proxy = run ex_lib None ex_ops"

definition ex_proxy2 :: "nat QcdnProxy" where
  "ex_proxy2 = run ex_lib None (ex_ops @ [OpHandle ex_w (ex_req ''/http,f/x'') 0])"

definition ex_net :: "nat net" where
  "ex_net = \<lparr>world = 0, exchanges = []\<rparr>"

definition ex_res :: "string \<Rightarrow> string \<Rightarrow> resource" where
  "ex_res h pth = \<lparr>urlBase = \<lparr>scheme = ''http'', host = h\<rparr>, path = pth\<rparr>"

text \<open>
  The first proxy with the backup \<open>t\<close> configured for the origin \<open>g\<close>, which does not
  exist; and that proxy after it has served \<open>/x\<close> of origin \<open>g\<close> while \<open>t\<close> answered 200.
\<close>

definition ex_proxy_g :: "nat QcdnProxy" where
  "ex_proxy_g = run ex_lib None (ex_ops @ [OpSetStrategy ''http://g'' (ex_strategy ''http://t'')])"

definition ex_proxy_g2 :: "nat QcdnProxy" where
  "ex_proxy_g2 =
     run ex_lib None (ex_ops @ [OpSetStrategy ''http://g'' (ex_strategy ''http://t''),
                                OpHandle ex_w (ex_req ''/http,g/x'') 0])"

text \<open>The network after five round trips.\<close>

definition ex_net5 :: "nat net" where
  "ex_net5 = \<lparr>world = 5, exchanges = []\<rparr>"

text \<open>The strategy table of the test bench proxy.\<close>

definition ex_origin :: "string \<Rightarrow> urlBase" where
  "ex_origin h = \<lparr>scheme = ''http'', host = h\<rparr>"

definition ex_backup :: "string \<Rightarrow> urlStrategy" where
  "ex_backup h = \<lparr>backup = ex_origin h, boot = \<lparr>scheme = [], host = []\<rparr>\<rparr>"

definition ex_strategies :: "urlBase \<rightharpoonup> urlStrategy" where
  "ex_strategies =
     [ex_origin ''a'' \<mapsto> ex_backup ''b'',
      ex_origin ''f'' \<mapsto> ex_backup ''c'',
      ex_origin ''c'' \<mapsto> ex_backup ''b'',
      ex_origin ''loop'' \<mapsto> ex_backup ''b'']"

section \<open>Properties\<close>

subsection \<open>The path codec\<close>

lemma takeWhile_sep: "sep \<notin> set a \<Longrightarrow> takeWhile (\<lambda>c. c \<noteq> sep) (a @ sep # b) = a"
  by (induction a) auto

lemma dropWhile_sep: "sep \<notin> set a \<Longrightarrow> dropWhile (\<lambda>c. c \<noteq> sep) (a @ sep # b) = sep # b"
  by (induction a) auto

lemma SplitN_two: "sep \<notin> set a \<Longrightarrow> SplitN (a @ sep # b) sep 2 = [a, b]"
  by (simp add: numeral_2_eq_2 takeWhile_sep dropWhile_sep)

lemma SplitN_two_none: "sep \<notin> set s \<Longrightarrow> SplitN s sep 2 = [s]"
  by (simp add: numeral_2_eq_2)

text \<open>
  Decoding inverts encoding as soon as the path starts with a slash, the scheme has
  neither comma nor slash and the host has no slash.
\<close>

lemma parse_make:
  assumes "CHR '','' \<notin> set sch" "CHR ''/'' \<notin> set sch" "CHR ''/'' \<notin> set hst"
  shows "parseProxyPath (makeProxyPath sch hst (CHR ''/'' # rest)) =
           Inr (\<lparr>urlBase = \<lparr>scheme = sch, host = hst\<rparr>, path = CHR ''/'' # rest\<rparr>, True)"
proof -
  have 1: "CHR ''/'' \<notin> set (sch @ CHR '','' # hst)" using assms by simp
  have "SplitN ((sch @ CHR '','' # hst) @ CHR ''/'' # rest) (CHR ''/'') 2 =
          [sch @ CHR '','' # hst, rest]"
    by (rule SplitN_two[OF 1])
  moreover have "SplitN (sch @ CHR '','' # hst) (CHR '','') 2 = [sch, hst]"
    by (rule SplitN_two[OF assms(1)])
  ultimately show ?thesis
    by (simp add: parseProxyPath_def makeProxyPath_def)
qed

text \<open>
  Claim C2. For a scheme and a host without comma and slash and a path that starts
  with one slash but not with two, decoding the encoded proxy path gives the resource
  back, with \<open>ok = true\<close>.
\<close>

theorem parseProxyPath_makeProxyPath:
  assumes "prefix ''/'' pth" and "\<not> prefix ''//'' pth"
    and "CHR '','' \<notin> set sch" and "CHR ''/'' \<notin> set sch"
    and "CHR '','' \<notin> set hst" and "CHR ''/'' \<notin> set hst"
  shows "parseProxyPath (makeProxyPath sch hst pth) =
           Inr (\<lparr>urlBase = \<lparr>scheme = sch, host = hst\<rparr>, path = pth\<rparr>, True)"
proof -
  from assms(1) obtain rest where "pth = CHR ''/'' # rest" by (auto simp: prefix_def)
  then show ?thesis using parse_make[OF assms(3,4,6)] by simp
qed

theorem parseProxyPath_makeProxyPath_witness:
  "parseProxyPath (makeProxyPath ''https'' ''origin.example'' ''/video.mp4'') =
     Inr (\<lparr>urlBase = \<lparr>scheme = ''https'', host = ''origin.example''\<rparr>,
          path = ''/video.mp4''\<rparr>, True)"
  using parseProxyPath_makeProxyPath[of "''/video.mp4''" "''https''" "''origin.example''"]
  by simp

subsection \<open>The HTTP client\<close>

lemma do_loop_terminates:
  assumes "CheckRedirect c = None \<or> CheckRedirect c = Some checkRedirect"
  shows "\<exists>r. do_loop c reqs req s = Some r"
proof (induction "10 - length reqs" arbitrary: reqs req s rule: less_induct)
  case less
  obtain wd l where s: "s = (wd, l)" by (cases s)
  show ?case
  proof (cases "RequestURI req = []")
    case False
    then show ?thesis by (subst do_loop.simps) (simp add: s)
  next
    case True
    obtain h wd' where t: "Transport c wd req = (h, wd')" by (cases "Transport c wd req")
    show ?thesis
    proof (cases h)
      case (Fail e)
      then show ?thesis using True t by (subst do_loop.simps) (simp add: s)
    next
      case (Final r)
      then show ?thesis using True t by (subst do_loop.simps) (simp add: s)
    next
      case (Redir r u)
      show ?thesis
      proof (cases "length (reqs @ [req]) \<ge> 10")
        case big: True
        then show ?thesis using True t Redir assms
          by (subst do_loop.simps) (auto simp add: s defaultCheckRedirect_def checkRedirect_def)
      next
        case small: False
        then have "10 - length (reqs @ [req]) < 10 - length reqs" by simp
        from less[OF this] show ?thesis using True t Redir assms small
          by (subst do_loop.simps)
             (auto simp add: s defaultCheckRedirect_def checkRedirect_def Let_def)
      qed
    qed
  qed
qed

lemma do_loop_sent:
  assumes "do_loop c reqs req s = Some y"
  shows "\<exists>more. fst (snd y) = reqs @ more \<and>
           (RequestURI req = [] \<longrightarrow> more \<noteq> [] \<and> hd more = req)"
proof (rule do_loop.raw_induct[where P = "\<lambda>c reqs req s y. \<exists>more. fst (snd y) = reqs @ more \<and>
        (RequestURI req = [] \<longrightarrow> more \<noteq> [] \<and> hd more = req)", OF _ assms], goal_cases)
  case (1 dl c reqs req s y)
  from 1(2) show ?case
    by (cases s)
       (auto split: if_splits prod.splits hop.splits option.splits simp: Let_def dest!: 1(1))
qed

lemma do_loop_closure:
  assumes "do_loop c reqs req s = Some y" and "CheckRedirect c = Some checkRedirect"
  shows "(fst (snd y) = reqs \<and> snd (snd (snd y)) = snd s \<and> RequestURI req \<noteq> []) \<or>
         (fst (snd y) = reqs @ [req] \<and> snd (snd (snd y)) = snd s) \<or>
         (\<exists>more. more \<noteq> [] \<and> fst (snd y) = reqs @ req # more \<and>
                 snd (snd (snd y)) = Some (last more))"
proof -
  have "CheckRedirect c = Some checkRedirect \<longrightarrow>
         ((fst (snd y) = reqs \<and> snd (snd (snd y)) = snd s \<and> RequestURI req \<noteq> []) \<or>
         (fst (snd y) = reqs @ [req] \<and> snd (snd (snd y)) = snd s) \<or>
         (\<exists>more. more \<noteq> [] \<and> fst (snd y) = reqs @ req # more \<and>
                 snd (snd (snd y)) = Some (last more)))"
  proof (rule do_loop.raw_induct[where P = "\<lambda>c reqs req s y.
         CheckRedirect c = Some checkRedirect \<longrightarrow>
         ((fst (snd y) = reqs \<and> snd (snd (snd y)) = snd s \<and> RequestURI req \<noteq> []) \<or>
         (fst (snd y) = reqs @ [req] \<and> snd (snd (snd y)) = snd s) \<or>
         (\<exists>more. more \<noteq> [] \<and> fst (snd y) = reqs @ req # more \<and>
                 snd (snd (snd y)) = Some (last more)))", OF _ assms(1)], goal_cases)
    case (1 dl c reqs req s y)
    from 1(2) show ?case
      by (cases s)
         (auto split: if_splits prod.splits hop.splits option.splits
               simp: Let_def checkRedirect_def dest!: 1(1))
  qed
  with assms(2) show ?thesis by blast
qed

lemma do_loop_stopped:
  assumes "do_loop c reqs req s = Some y"
    and "CheckRedirect c = None \<or> CheckRedirect c = Some checkRedirect"
    and "fst y = (Some r, Some e)" and "length reqs < 10"
  shows "length (fst (snd y)) = 10 \<and> e = ''stopped after 10 redirects''"
proof -
  have "(CheckRedirect c = None \<or> CheckRedirect c = Some checkRedirect) \<longrightarrow> length reqs < 10 \<longrightarrow>
      (\<forall>r e. fst y = (Some r, Some e) \<longrightarrow>
             length (fst (snd y)) = 10 \<and> e = ''stopped after 10 redirects'')"
  proof (rule do_loop.raw_induct[where P = "\<lambda>c reqs req s y.
      (CheckRedirect c = None \<or> CheckRedirect c = Some checkRedirect) \<longrightarrow> length reqs < 10 \<longrightarrow>
      (\<forall>r e. fst y = (Some r, Some e) \<longrightarrow>
             length (fst (snd y)) = 10 \<and> e = ''stopped after 10 redirects'')",
      OF _ assms(1)], goal_cases)
    case (1 dl c reqs req s y)
    from 1(2) show ?case
      by (cases s)
         (auto split: if_splits prod.splits hop.splits option.splits
               simp: Let_def checkRedirect_def defaultCheckRedirect_def dest!: 1(1))
  qed
  with assms show ?thesis by blast
qed

lemma do_loop_bounded:
  assumes "do_loop c reqs req s = Some y"
    and "CheckRedirect c = None \<or> CheckRedirect c = Some checkRedirect"
    and "length reqs < 10"
  shows "length (fst (snd y)) \<le> 10"
proof -
  have "(CheckRedirect c = None \<or> CheckRedirect c = Some checkRedirect) \<longrightarrow> length reqs < 10 \<longrightarrow>
          length (fst (snd y)) \<le> 10"
  proof (rule do_loop.raw_induct[where P = "\<lambda>c reqs req s y.
      (CheckRedirect c = None \<or> CheckRedirect c = Some checkRedirect) \<longrightarrow> length reqs < 10 \<longrightarrow>
      length (fst (snd y)) \<le> 10", OF _ assms(1)], goal_cases)
    case (1 dl c reqs req s y)
    from 1(2) show ?case
      by (cases s)
         (auto split: if_splits prod.splits hop.splits option.splits
               simp: Let_def checkRedirect_def defaultCheckRedirect_def dest!: 1(1))
  qed
  with assms show ?thesis by blast
qed

subsection \<open>The response writer\<close>

lemma fold_Header_Add: "fold (\<lambda>v d. Header_Add d k v) vv d = d(k := d k @ vv)"
  by (induction vv arbitrary: d) (auto simp: Header_Add_def)

text \<open>
  \<^verbatim>\<open>copyHeader\<close> adds, under every key, the values the source has for it, in the order
  of the source.
\<close>

lemma copyHeader_apply:
  "copyHeader dst src k = dst k @ concat (map snd (filter (\<lambda>kv. fst kv = k) src))"
proof -
  have "fold (\<lambda>(k, vv) d. fold (\<lambda>v d. Header_Add d k v) vv d) src dst k =
          dst k @ concat (map snd (filter (\<lambda>kv. fst kv = k) src))"
    by (induction src arbitrary: dst) (auto simp: fold_Header_Add)
  then show ?thesis by (simp add: copyHeader_def)
qed

lemma w_WriteHeader_ok:
  assumes "wroteHeader w \<or> (100 \<le> code \<and> code \<le> 999)"
  shows "w_WriteHeader w code =
           Inr (w\<lparr>wroteHeader := True, written := written w @ [WriteHeader code]\<rparr>)"
  using assms by (cases w) (auto simp: w_WriteHeader_def)

lemma w_WriteHeader_panic:
  assumes "\<not> wroteHeader w" and "code < 100 \<or> code > 999"
  shows "w_WriteHeader w code = Inl (Panic ''invalid WriteHeader code'')"
  using assms by (auto simp: w_WriteHeader_def)

text \<open>Copying the header, writing the status line and copying the body is streaming.\<close>

lemma stream_steps:
  assumes "wroteHeader w \<or> (100 \<le> StatusCode r \<and> StatusCode r \<le> 999)"
  shows "w_WriteHeader (w\<lparr>header := copyHeader (header w) (Header r)\<rparr>) (StatusCode r) =
           Inr (w\<lparr>header := copyHeader (header w) (Header r), wroteHeader := True,
                  written := written w @ [WriteHeader (StatusCode r)]\<rparr>)"
    and "w_Write (w\<lparr>header := copyHeader (header w) (Header r), wroteHeader := True,
                  written := written w @ [WriteHeader (StatusCode r)]\<rparr>) (Body r) = streamed w r"
proof -
  show "w_WriteHeader (w\<lparr>header := copyHeader (header w) (Header r)\<rparr>) (StatusCode r) =
           Inr (w\<lparr>header := copyHeader (header w) (Header r), wroteHeader := True,
                  written := written w @ [WriteHeader (StatusCode r)]\<rparr>)"
    using assms w_WriteHeader_ok[of "w\<lparr>header := copyHeader (header w) (Header r)\<rparr>" "StatusCode r"]
    by simp
  have "copyHeader (header w) (Header r) =
          (\<lambda>k. header w k @ concat (map snd (filter (\<lambda>kv. fst kv = k) (Header r))))"
    by (rule ext) (rule copyHeader_apply)
  then show "w_Write (w\<lparr>header := copyHeader (header w) (Header r), wroteHeader := True,
                  written := written w @ [WriteHeader (StatusCode r)]\<rparr>) (Body r) = streamed w r"
    by (simp add: w_Write_def streamed_def)
qed

subsection \<open>serveRequest\<close>

lemma serveRequest_ok:
  assumes "client_Do c req (world nt, l) = Some ((Some r, None), reqs, wd', l')"
    and "StatusCode r sdiv 100 \<noteq> 5"
    and "wroteHeader w \<or> (100 \<le> StatusCode r \<and> StatusCode r \<le> 999)"
  shows "serveRequest c w req nt l =
           Some (Inr (True, streamed w r,
                 \<lparr>world = wd', exchanges = exchanges nt @
                     [\<lparr>ex_reqs = reqs, ex_resp = Some r, ex_err = None\<rparr>]\<rparr>, l'))"
  using assms(1,2) by (simp add: serveRequest_def stream_steps[OF assms(3)])

lemma serveRequest_panic:
  assumes "client_Do c req (world nt, l) = Some ((Some r, None), reqs, wd', l')"
    and "StatusCode r sdiv 100 \<noteq> 5"
    and "\<not> wroteHeader w" and "StatusCode r < 100 \<or> StatusCode r > 999"
  shows "serveRequest c w req nt l = Some (Inl (Panic ''invalid WriteHeader code''))"
proof -
  have "w_WriteHeader (w\<lparr>header := copyHeader (header w) (Header r)\<rparr>) (StatusCode r) =
          Inl (Panic ''invalid WriteHeader code'')"
    using assms(3,4) by (intro w_WriteHeader_panic) simp_all
  with assms(1,2) show ?thesis by (simp add: serveRequest_def)
qed

lemma serveRequest_stopped:
  assumes "client_Do c req (world nt, l) = Some ((resp, Some e), reqs, wd', l')"
  shows "serveRequest c w req nt l =
           Some (Inr (False, w,
                 \<lparr>world = wd', exchanges = exchanges nt @
                     [\<lparr>ex_reqs = reqs, ex_resp = resp, ex_err = Some e\<rparr>]\<rparr>, l'))"
  using assms by (simp add: serveRequest_def)

lemma serveRequest_5xx:
  assumes "client_Do c req (world nt, l) = Some ((Some r, None), reqs, wd', l')"
    and "StatusCode r sdiv 100 = 5"
  shows "serveRequest c w req nt l =
           Some (Inr (False, w,
                 \<lparr>world = wd', exchanges = exchanges nt @
                     [\<lparr>ex_reqs = reqs, ex_resp = Some r, ex_err = None\<rparr>]\<rparr>, l'))"
  using assms by (simp add: serveRequest_def)

lemma serveRequest_inv:
  assumes "serveRequest c w req nt l = Some (Inr (ok, w', nt', l'))"
  shows "\<exists>resp err reqs.
           client_Do c req (world nt, l) = Some ((resp, err), reqs, world nt', l') \<and>
           exchanges nt' = exchanges nt @ [\<lparr>ex_reqs = reqs, ex_resp = resp, ex_err = err\<rparr>] \<and>
           ok = fetch_ok \<lparr>ex_reqs = reqs, ex_resp = resp, ex_err = err\<rparr> \<and>
           (if ok then \<exists>r. resp = Some r \<and> w' = streamed w r else w' = w)"
proof -
  obtain resp err reqs wd' l2 where d: "client_Do c req (world nt, l) = Some ((resp, err), reqs, wd', l2)"
    using assms by (cases "client_Do c req (world nt, l)") (auto simp: serveRequest_def)
  show ?thesis
  proof (cases err)
    case (Some e)
    with assms serveRequest_stopped[of c req nt l resp e reqs wd' l2 w] d show ?thesis
      by (auto simp add: fetch_ok_def)
  next
    case None
    show ?thesis
    proof (cases resp)
      case N: None
      with None assms d show ?thesis by (auto simp add: serveRequest_def fetch_ok_def)
    next
      case (Some r)
      show ?thesis
      proof (cases "StatusCode r sdiv 100 = 5")
        case True
        with serveRequest_5xx[of c req nt l r reqs wd' l2 w] d None Some assms show ?thesis
          by (auto simp add: fetch_ok_def)
      next
        case not5: False
        show ?thesis
        proof (cases "wroteHeader w \<or> (100 \<le> StatusCode r \<and> StatusCode r \<le> 999)")
          case True
          from serveRequest_ok[of c req nt l r reqs wd' l2, OF _ not5 True] d None Some assms not5
          show ?thesis by (auto simp add: fetch_ok_def)
        next
          case False
          then have "\<not> wroteHeader w" and "StatusCode r < 100 \<or> StatusCode r > 999" by auto
          from serveRequest_panic[of c req nt l r reqs wd' l2, OF _ not5 this] d None Some assms
          show ?thesis by simp
        qed
      qed
    qed
  qed
qed

lemma serveRequest_terminates:
  assumes "CheckRedirect c = None \<or> CheckRedirect c = Some checkRedirect"
  shows "\<exists>r. serveRequest c w req nt l = Some r"
proof -
  from do_loop_terminates[OF assms] obtain y where "do_loop c [] req (world nt, l) = Some y"
    by blast
  then show ?thesis
    by (cases y)
       (auto simp: serveRequest_def client_Do_def Let_def split: option.splits sum.splits)
qed

subsection \<open>The two branches of the handler\<close>

lemma handle_hit:
  assumes "parseProxyPath (Path (URL req)) = Inr (uri, True)" and "redirects p uri = Some r"
  shows "handle p w req nt =
          (case serveRequest (client p) w (retarget req r) nt None of
             None \<Rightarrow> None
           | Some (Inl e) \<Rightarrow> Some (Inl e)
           | Some (Inr (ok, w', nt', l')) \<Rightarrow>
               if ok then Some (Inr \<lparr>proxy = p, writer = w', request = retarget req r,
                                     network = nt'\<rparr>)
               else handle_backup p w' (retarget req r) uri nt')"
  using assms
  by (auto simp add: handle_def redirectOf_def retarget_def Let_def
           split: option.splits prod.splits bool.splits sum.splits)

lemma handle_miss:
  assumes "parseProxyPath (Path (URL req)) = Inr (uri, True)" and "redirects p uri = None"
  shows "handle p w req nt =
          (case serveRequest ((client p)\<lparr>CheckRedirect := Some checkRedirect\<rparr>) w
                  (retarget req uri) nt None of
             None \<Rightarrow> None
           | Some (Inl e) \<Rightarrow> Some (Inl e)
           | Some (Inr (ok, w', nt', l')) \<Rightarrow>
              (case (ok, l') of
                 (True, Some lst) \<Rightarrow>
                   Some (Inr \<lparr>proxy = setRedirect p uri
                                 \<lparr>urlBase = \<lparr>scheme = Scheme (URL lst), host = Host (URL lst)\<rparr>,
                                  path = Path (URL lst)\<rparr>,
                              writer = w', request = retarget req uri, network = nt'\<rparr>)
               | _ \<Rightarrow> handle_backup p w' (retarget req uri) uri nt'))"
  using assms
  by (auto simp add: handle_def redirectOf_def retarget_def Let_def
           split: option.splits prod.splits bool.splits sum.splits)


subsection \<open>The backup step and totality of the handler\<close>


lemma handle_backup_panic:
  assumes "strategies p (urlBase uri) = Some s"
    and "Host (URL req) \<noteq> host (backup s)"
    and "reqB = req\<lparr>URL := (URL req)\<lparr>Path := path uri, Scheme := scheme (backup s),
                                      Host := host (backup s)\<rparr>, ReqHost := host (backup s)\<rparr>"
    and "client_Do (client p) reqB (world nt, None) = Some ((Some resp, None), reqs, wd2, l2)"
    and "StatusCode resp sdiv 100 \<noteq> 5"
    and "\<not> wroteHeader w" and "StatusCode resp < 100 \<or> StatusCode resp > 999"
  shows "handle_backup p w req uri nt = Some (Inl (Panic ''invalid WriteHeader code''))"
proof -
  have "serveRequest (client p) w reqB nt None = Some (Inl (Panic ''invalid WriteHeader code''))"
    by (rule serveRequest_panic[OF assms(4,5,6,7)])
  then show ?thesis using assms(1,2,3)
    by (simp add: handle_backup_def Let_def)
qed

lemma handle_backup_total:
  assumes "CheckRedirect (client p) = None"
  shows "\<exists>r. handle_backup p w req uri nt = Some r"
proof (cases "strategies p (urlBase uri)")
  case None
  then show ?thesis by (simp add: handle_backup_def)
next
  case (Some s)
  show ?thesis
  proof (cases "Host (URL req) \<noteq> host (backup s)")
    case False
    with Some show ?thesis by (simp add: handle_backup_def)
  next
    case True
    define reqB where "reqB = req\<lparr>URL := (URL req)\<lparr>Path := path uri, Scheme := scheme (backup s),
                                      Host := host (backup s)\<rparr>, ReqHost := host (backup s)\<rparr>"
    from serveRequest_terminates[of "client p" w reqB nt None] assms
    obtain r where sr: "serveRequest (client p) w reqB nt None = Some r"
      by blast
    with Some True show ?thesis
      by (cases r) (auto simp add: handle_backup_def Let_def reqB_def)
  qed
qed

lemma handle_backup_exchanges:
  assumes "handle_backup p w req uri nt = Some (Inr out)"
  shows "\<exists>more. exchanges (network out) = exchanges nt @ more"
proof (cases "strategies p (urlBase uri)")
  case None
  with assms show ?thesis by (auto simp add: handle_backup_def)
next
  case (Some s)
  show ?thesis
  proof (cases "Host (URL req) \<noteq> host (backup s)")
    case False
    with Some assms show ?thesis by (auto simp add: handle_backup_def)
  next
    case True
    define reqB where "reqB = req\<lparr>URL := (URL req)\<lparr>Path := path uri, Scheme := scheme (backup s),
                                      Host := host (backup s)\<rparr>, ReqHost := host (backup s)\<rparr>"
    from assms Some True obtain ok w' nt' l' where
      sr: "serveRequest (client p) w reqB nt None = Some (Inr (ok, w', nt', l'))"
      by (cases "serveRequest (client p) w reqB nt None")
         (auto simp: handle_backup_def Let_def reqB_def split: sum.splits)
    from serveRequest_inv[OF sr] obtain e where "exchanges nt' = exchanges nt @ [e]" by blast
    with sr Some True assms show ?thesis
      by (cases ok) (auto simp add: handle_backup_def Let_def reqB_def)
  qed
qed

lemma handle_total:
  assumes "CheckRedirect (client p) = None"
  shows "\<exists>r. handle p w req nt = Some r"
proof (cases "parseProxyPath (Path (URL req))")
  case (Inl e)
  then show ?thesis by (simp add: handle_def)
next
  case (Inr a)
  obtain uri ok where a: "a = (uri, ok)" by (cases a)
  show ?thesis
  proof (cases ok)
    case False
    with Inr a show ?thesis by (simp add: handle_def)
  next
    case True
    from Inr a True have pp: "parseProxyPath (Path (URL req)) = Inr (uri, True)" by simp
    show ?thesis
    proof (cases "redirects p uri")
      case None
      from serveRequest_terminates[of "(client p)\<lparr>CheckRedirect := Some checkRedirect\<rparr>"
              w "retarget req uri" nt None]
      obtain r where
        sr: "serveRequest ((client p)\<lparr>CheckRedirect := Some checkRedirect\<rparr>) w
               (retarget req uri) nt None = Some r"
        by auto
      show ?thesis
      proof (cases r)
        case (Inl e)
        with sr show ?thesis by (simp add: handle_miss[OF pp None])
      next
        case (Inr b)
        obtain ok w' nt' l' where b: "b = (ok, w', nt', l')" by (cases b)
        from handle_backup_total[OF assms, of w' "retarget req uri" uri nt'] sr Inr b
        show ?thesis
          by (auto simp add: handle_miss[OF pp None] split: bool.splits option.splits)
      qed
    next
      case (Some r')
      from serveRequest_terminates[of "client p" w "retarget req r'" nt None] assms
      obtain r where
        sr: "serveRequest (client p) w (retarget req r') nt None = Some r"
        by auto
      show ?thesis
      proof (cases r)
        case (Inl e)
        with sr show ?thesis by (simp add: handle_hit[OF pp Some])
      next
        case (Inr b)
        obtain ok w' nt' l' where b: "b = (ok, w', nt', l')" by (cases b)
        from handle_backup_total[OF assms, of w' "retarget req r'" uri nt'] sr Inr b
        show ?thesis
          by (auto simp add: handle_hit[OF pp Some])
      qed
    qed
  qed
qed



text \<open>
  A call of \<^verbatim>\<open>client.Do\<close> under the default redirect policy returns; it has sent at
  least one and at most 10 requests, the first of them the request it was given.
\<close>

lemma client_Do_default:
  assumes "CheckRedirect c = None" and "RequestURI req = []"
  shows "\<exists>resp err reqs wd' l'.
           client_Do c req (wd, l) = Some ((resp, err), reqs, wd', l') \<and>
           reqs \<noteq> [] \<and> hd reqs = req \<and> length reqs \<le> 10"
proof -
  from do_loop_terminates[of c "[]" req "(wd, l)"] assms(1)
  obtain y where d: "do_loop c [] req (wd, l) = Some y" by blast
  obtain resp err reqs wd' l' where y: "y = ((resp, err), reqs, wd', l')"
    by (cases y) auto
  from do_loop_sent[OF d] assms(2) y have "reqs \<noteq> [] \<and> hd reqs = req" by auto
  moreover from do_loop_bounded[OF d] assms(1) y have "length reqs \<le> 10" by simp
  ultimately show ?thesis using d y by (simp add: client_Do_def)
qed

text \<open>
  The handler on a cache hit, in terms of its one call of \<^verbatim>\<open>client.Do\<close> for the
  cached resource.
\<close>

lemma handle_hit_Do:
  assumes "parseProxyPath (Path (URL req)) = Inr (uri, True)"
    and "redirects p uri = Some r"
    and "client_Do (client p) (retarget req r) (world nt, None) =
           Some ((resp, err), reqs, wd', l')"
  shows "handle p w req nt =
          (case (err, resp) of
             (None, Some rsp) \<Rightarrow>
               if StatusCode rsp sdiv 100 = 5 then
                 handle_backup p w (retarget req r) uri
                   \<lparr>world = wd', exchanges = exchanges nt @
                      [\<lparr>ex_reqs = reqs, ex_resp = resp, ex_err = err\<rparr>]\<rparr>
               else if wroteHeader w \<or> (100 \<le> StatusCode rsp \<and> StatusCode rsp \<le> 999) then
                 Some (Inr \<lparr>proxy = p, writer = streamed w rsp, request = retarget req r,
                            network = \<lparr>world = wd', exchanges = exchanges nt @
                              [\<lparr>ex_reqs = reqs, ex_resp = resp, ex_err = err\<rparr>]\<rparr>\<rparr>)
               else Some (Inl (Panic ''invalid WriteHeader code''))
           | _ \<Rightarrow>
               handle_backup p w (retarget req r) uri
                 \<lparr>world = wd', exchanges = exchanges nt @
                    [\<lparr>ex_reqs = reqs, ex_resp = resp, ex_err = err\<rparr>]\<rparr>)"
proof (cases err)
  case (Some e)
  with serveRequest_stopped[of "client p" "retarget req r" nt None resp e reqs wd' l' w] assms(3)
  show ?thesis by (simp add: handle_hit[OF assms(1,2)])
next
  case None
  show ?thesis
  proof (cases resp)
    case N: None
    with None assms(3) show ?thesis
      by (simp add: handle_hit[OF assms(1,2)] serveRequest_def)
  next
    case (Some rsp)
    note d = assms(3)[unfolded None Some]
    show ?thesis
    proof (cases "StatusCode rsp sdiv 100 = 5")
      case True
      with serveRequest_5xx[OF d True, of w] None Some show ?thesis
        by (simp add: handle_hit[OF assms(1,2)])
    next
      case not5: False
      show ?thesis
      proof (cases "wroteHeader w \<or> (100 \<le> StatusCode rsp \<and> StatusCode rsp \<le> 999)")
        case True
        with serveRequest_ok[OF d not5 True] None Some not5 show ?thesis
          by (simp add: handle_hit[OF assms(1,2)])
      next
        case False
        then have "\<not> wroteHeader w" and "StatusCode rsp < 100 \<or> StatusCode rsp > 999" by auto
        from serveRequest_panic[OF d not5 this] None Some not5 False show ?thesis
          by (simp add: handle_hit[OF assms(1,2)])
      qed
    qed
  qed
qed

subsection \<open>Writes to the redirect cache\<close>

lemma handle_backup_cache:
  assumes "handle_backup p w req uri nt = Some (Inr out)" and "RequestURI req = []"
  shows "redirects (proxy out) = redirects p \<or>
         (\<exists>v e. redirects (proxy out) = (redirects p)(uri \<mapsto> v) \<and>
                e \<in> set (exchanges (network out)) \<and> fetch_ok e \<and> to_backup p uri e)"
proof (cases "strategies p (urlBase uri)")
  case None
  with assms show ?thesis by (auto simp: handle_backup_def)
next
  case (Some s)
  show ?thesis
  proof (cases "Host (URL req) \<noteq> host (backup s)")
    case False
    with Some assms show ?thesis by (auto simp: handle_backup_def)
  next
    case True
    define reqB where "reqB = req\<lparr>URL := (URL req)\<lparr>Path := path uri, Scheme := scheme (backup s),
                                      Host := host (backup s)\<rparr>, ReqHost := host (backup s)\<rparr>"
    from assms(1) Some True obtain ok w' nt' l' where
      sr: "serveRequest (client p) w reqB nt None = Some (Inr (ok, w', nt', l'))"
      by (cases "serveRequest (client p) w reqB nt None")
         (auto simp: handle_backup_def Let_def reqB_def split: sum.splits)
    show ?thesis
    proof (cases ok)
      case False
      with assms(1) Some True sr show ?thesis
        by (auto simp: handle_backup_def Let_def reqB_def)
    next
      case ok: True
      from serveRequest_inv[OF sr] ok obtain resp err reqs where
        d: "client_Do (client p) reqB (world nt, None) = Some ((resp, err), reqs, world nt', l')"
        and e: "exchanges nt' = exchanges nt @ [\<lparr>ex_reqs = reqs, ex_resp = resp, ex_err = err\<rparr>]"
        and f: "fetch_ok \<lparr>ex_reqs = reqs, ex_resp = resp, ex_err = err\<rparr>"
        by auto
      have "RequestURI reqB = []" using assms(2) by (simp add: reqB_def)
      with do_loop_sent[OF d[unfolded client_Do_def]]
      obtain rest where r: "reqs = reqB # rest" by (cases reqs) auto
      have tb: "to_backup p uri \<lparr>ex_reqs = reqs, ex_resp = resp, ex_err = err\<rparr>"
        using Some r by (simp add: to_backup_def targets_def reqB_def)
      from assms(1) Some True sr ok
      have o: "out = \<lparr>proxy = setRedirect p uri \<lparr>urlBase = backup s, path = path uri\<rparr>,
                       writer = w', request = reqB, network = nt'\<rparr>"
        by (simp add: handle_backup_def Let_def reqB_def)
      have "redirects (proxy out) = (redirects p)(uri \<mapsto> \<lparr>urlBase = backup s, path = path uri\<rparr>)"
        by (simp add: o setRedirect_def)
      moreover have "\<lparr>ex_reqs = reqs, ex_resp = resp, ex_err = err\<rparr> \<in> set (exchanges (network out))"
        by (simp add: o e)
      ultimately show ?thesis using f tb by blast
    qed
  qed
qed

lemma handle_cache_step:
  assumes "handle p w req nt = Some (Inr out)"
  shows "redirects (proxy out) = redirects p \<or>
         (\<exists>uri v e. parseProxyPath (Path (URL req)) = Inr (uri, True) \<and>
                redirects (proxy out) = (redirects p)(uri \<mapsto> v) \<and>
                e \<in> set (exchanges (network out)) \<and> fetch_ok e \<and>
                (observed_redirect uri e \<or> to_backup p uri e))"
proof (cases "parseProxyPath (Path (URL req))")
  case (Inl e)
  with assms show ?thesis by (simp add: handle_def)
next
  case (Inr a)
  obtain uri ok where a: "a = (uri, ok)" by (cases a)
  show ?thesis
  proof (cases ok)
    case False
    with Inr a assms show ?thesis by (auto simp add: handle_def)
  next
    case True
    from Inr a True have pp: "parseProxyPath (Path (URL req)) = Inr (uri, True)" by simp
    show ?thesis
    proof (cases "redirects p uri")
      case (Some r)
      from assms obtain ok w' nt' l' where
        sr: "serveRequest (client p) w (retarget req r) nt None = Some (Inr (ok, w', nt', l'))"
        by (cases "serveRequest (client p) w (retarget req r) nt None")
           (auto simp: handle_hit[OF pp Some] split: sum.splits)
      show ?thesis
      proof (cases ok)
        case True
        with assms sr show ?thesis by (auto simp: handle_hit[OF pp Some])
      next
        case False
        with assms sr have "handle_backup p w' (retarget req r) uri nt' = Some (Inr out)"
          by (simp add: handle_hit[OF pp Some])
        from handle_backup_cache[OF this] pp show ?thesis
          by (auto simp: retarget_def)
      qed
    next
      case None
      let ?c = "(client p)\<lparr>CheckRedirect := Some checkRedirect\<rparr>"
      from assms obtain ok w' nt' l' where
        sr: "serveRequest ?c w (retarget req uri) nt None = Some (Inr (ok, w', nt', l'))"
        by (cases "serveRequest ?c w (retarget req uri) nt None")
           (auto simp: handle_miss[OF pp None] split: sum.splits)
      show ?thesis
      proof (cases "ok \<and> l' \<noteq> None")
        case False
        with assms sr have "handle_backup p w' (retarget req uri) uri nt' = Some (Inr out)"
          by (auto simp add: handle_miss[OF pp None] split: bool.splits option.splits)
        from handle_backup_cache[OF this] pp show ?thesis
          by (auto simp: retarget_def)
      next
        case True
        then obtain lst where l: "l' = Some lst" and ok: ok by auto
        from serveRequest_inv[OF sr] ok obtain resp err reqs where
          d: "client_Do ?c (retarget req uri) (world nt, None) =
                Some ((resp, err), reqs, world nt', l')"
          and e: "exchanges nt' = exchanges nt @ [\<lparr>ex_reqs = reqs, ex_resp = resp, ex_err = err\<rparr>]"
          and f: "fetch_ok \<lparr>ex_reqs = reqs, ex_resp = resp, ex_err = err\<rparr>"
          by auto
        have "CheckRedirect ?c = Some checkRedirect" by simp
        from do_loop_closure[OF d[unfolded client_Do_def] this] l
        obtain more where "more \<noteq> []" and "reqs = retarget req uri # more" by auto
        then obtain r2 rest where r: "reqs = retarget req uri # r2 # rest" by (cases more) auto
        have orx: "observed_redirect uri \<lparr>ex_reqs = reqs, ex_resp = resp, ex_err = err\<rparr>"
          by (simp add: observed_redirect_def r targets_def retarget_def)
        from assms sr ok l
        have o: "out = \<lparr>proxy = setRedirect p uri
                                 \<lparr>urlBase = \<lparr>scheme = Scheme (URL lst), host = Host (URL lst)\<rparr>,
                                  path = Path (URL lst)\<rparr>,
                         writer = w', request = retarget req uri, network = nt'\<rparr>"
          by (simp add: handle_miss[OF pp None])
        have "redirects (proxy out) = (redirects p)(uri \<mapsto>
                  \<lparr>urlBase = \<lparr>scheme = Scheme (URL lst), host = Host (URL lst)\<rparr>,
                   path = Path (URL lst)\<rparr>)"
          by (simp add: o setRedirect_def)
        moreover have "\<lparr>ex_reqs = reqs, ex_resp = resp, ex_err = err\<rparr> \<in> set (exchanges (network out))"
          by (simp add: o e)
        ultimately show ?thesis using pp f orx by blast
      qed
    qed
  qed
qed


lemma exec_other_redirects:
  assumes "\<not> is_handle op"
  shows "redirects (exec lib p op) = redirects p"
proof (cases op)
  case (OpSetStrategy u s)
  then show ?thesis
    by (auto simp: SetStrategy_def split: sum.splits option.splits)
next
  case (OpMakeVodURL u n)
  then show ?thesis
    by (auto simp: MakeVodURL_def getProxyHost_def Let_def split: option.splits)
next
  case (OpHandle w req wd)
  with assms show ?thesis by simp
next
  case OpClose
  then show ?thesis by (auto simp: Close_def split: option.splits)
qed

lemma exec_handle_redirects:
  "redirects (exec lib p (OpHandle w req wd)) = redirects p \<or>
   (\<exists>k v. redirects (exec lib p (OpHandle w req wd)) = (redirects p)(k \<mapsto> v) \<and>
          resolves p (OpHandle w req wd) k)"
proof (cases "handle p w req \<lparr>world = wd, exchanges = []\<rparr>")
  case None
  then show ?thesis by simp
next
  case (Some a)
  show ?thesis
  proof (cases a)
    case (Inl e)
    with Some show ?thesis by simp
  next
    case (Inr out)
    with Some have h: "handle p w req \<lparr>world = wd, exchanges = []\<rparr> = Some (Inr out)" by simp
    from handle_cache_step[OF h] show ?thesis
    proof
      assume "redirects (proxy out) = redirects p"
      with h show ?thesis by simp
    next
      assume "\<exists>uri v e. parseProxyPath (Path (URL req)) = Inr (uri, True) \<and>
                redirects (proxy out) = (redirects p)(uri \<mapsto> v) \<and>
                e \<in> set (exchanges (network out)) \<and> fetch_ok e \<and>
                (observed_redirect uri e \<or> to_backup p uri e)"
      then obtain uri v e where "parseProxyPath (Path (URL req)) = Inr (uri, True)"
        and r: "redirects (proxy out) = (redirects p)(uri \<mapsto> v)"
        and "e \<in> set (exchanges (network out))" and "fetch_ok e"
        and "observed_redirect uri e \<or> to_backup p uri e" by blast
      then have "resolves p (OpHandle w req wd) uri"
        using h by (auto simp: resolves_def list_ex_iff)
      with r h show ?thesis by auto
    qed
  qed
qed

lemma exec_dom_mono: "dom (redirects p) \<subseteq> dom (redirects (exec lib p op))"
proof (cases "is_handle op")
  case False
  then show ?thesis by (simp add: exec_other_redirects)
next
  case True
  then obtain w req wd where op: "op = OpHandle w req wd" by (cases op) auto
  from exec_handle_redirects[of lib p w req wd] show ?thesis unfolding op by auto
qed

lemma exec_new_key:
  assumes "k \<in> dom (redirects (exec lib p op))" and "k \<notin> dom (redirects p)"
  shows "resolves p op k"
proof (cases "is_handle op")
  case False
  with assms show ?thesis by (simp add: exec_other_redirects)
next
  case True
  then obtain w req wd where op: "op = OpHandle w req wd" by (cases op) auto
  from exec_handle_redirects[of lib p w req wd] assms show ?thesis
    unfolding op by (auto split: if_splits)
qed

lemma run_snoc: "run lib conf (ops @ [op]) = exec lib (run lib conf ops) op"
  by (simp add: run_def)

lemma run_cache_justified:
  "k \<in> dom (redirects (run lib conf ops)) \<Longrightarrow>
     \<exists>i<length ops. resolves (run lib conf (take i ops)) (ops ! i) k"
proof (induction ops rule: rev_induct)
  case Nil
  then show ?case by (simp add: run_def NewQcdnProxy_def)
next
  case (snoc op ops)
  show ?case
  proof (cases "k \<in> dom (redirects (run lib conf ops))")
    case True
    from snoc.IH[OF True] obtain i where "i < length ops"
      and "resolves (run lib conf (take i ops)) (ops ! i) k" by blast
    then have "i < length (ops @ [op]) \<and>
               resolves (run lib conf (take i (ops @ [op]))) ((ops @ [op]) ! i) k"
      by (simp add: nth_append)
    then show ?thesis by blast
  next
    case False
    from snoc.prems have "k \<in> dom (redirects (exec lib (run lib conf ops) op))"
      by (simp add: run_snoc)
    from exec_new_key[OF this False]
    have "resolves (run lib conf (take (length ops) (ops @ [op]))) ((ops @ [op]) ! length ops) k"
      by simp
    then show ?thesis by (intro exI[of _ "length ops"]) simp
  qed
qed

subsection \<open>Reachable proxies\<close>

text \<open>The backup step and the handler change nothing of the proxy but the redirect cache.\<close>

lemma handle_backup_proxy:
  assumes "handle_backup p w req uri nt = Some (Inr out)"
  shows "client (proxy out) = client p \<and> strategies (proxy out) = strategies p"
  using assms
  by (auto simp: handle_backup_def Let_def setRedirect_def
           split: option.splits if_splits sum.splits)

lemma handle_proxy:
  assumes "handle p w req nt = Some (Inr out)"
  shows "client (proxy out) = client p \<and> strategies (proxy out) = strategies p"
proof (cases "parseProxyPath (Path (URL req))")
  case (Inl e)
  with assms show ?thesis by (simp add: handle_def)
next
  case (Inr a)
  obtain uri ok where a: "a = (uri, ok)" by (cases a)
  show ?thesis
  proof (cases ok)
    case False
    with Inr a assms show ?thesis by (auto simp add: handle_def)
  next
    case True
    from Inr a True have pp: "parseProxyPath (Path (URL req)) = Inr (uri, True)" by simp
    show ?thesis
    proof (cases "redirects p uri")
      case (Some r)
      with assms show ?thesis
        by (auto simp: handle_hit[OF pp Some] split: option.splits if_splits sum.splits
                 dest: handle_backup_proxy)
    next
      case None
      with assms show ?thesis
        by (auto simp: handle_miss[OF pp None] setRedirect_def
                 split: option.splits bool.splits sum.splits dest: handle_backup_proxy)
    qed
  qed
qed

lemma exec_client: "client (exec lib p op) = client p"
proof (cases op)
  case (OpSetStrategy u s)
  then show ?thesis
    by (auto simp: SetStrategy_def split: sum.splits option.splits)
next
  case (OpMakeVodURL u n)
  then show ?thesis
    by (auto simp: MakeVodURL_def getProxyHost_def Let_def split: option.splits)
next
  case (OpHandle w req wd)
  then show ?thesis
    by (auto split: option.splits sum.splits dest: handle_proxy)
next
  case OpClose
  then show ?thesis by (auto simp: Close_def split: option.splits)
qed

text \<open>
  Every reachable proxy has the client that \<^verbatim>\<open>NewQcdnProxy\<close> built: its redirect
  policy is the default one.
\<close>

lemma run_client: "client (run lib conf ops) = client (NewQcdnProxy lib conf)"
  by (induction ops rule: rev_induct) (simp_all add: run_def exec_client)

lemma run_client_policy: "CheckRedirect (client (run lib conf ops)) = None"
  by (simp add: run_client NewQcdnProxy_def Let_def)

text \<open>On a reachable proxy every handler invocation returns.\<close>

lemma run_handle_returns: "\<exists>r. handle (run lib conf ops) w req nt = Some r"
  by (rule handle_total[OF run_client_policy])

subsection \<open>Two more paths through the handler\<close>

text \<open>
  A path that does not decode, other than the empty one, is answered with status 500
  and nothing is sent upstream.
\<close>

lemma parseProxyPath_not_ok:
  "parseProxyPath (c # rest) = Inr (uri, False) \<longleftrightarrow>
     uri = zero_resource \<and>
     (CHR ''/'' \<notin> set rest \<or> CHR '','' \<notin> set (takeWhile (\<lambda>x. x \<noteq> CHR ''/'') rest))"
  by (auto simp: parseProxyPath_def numeral_2_eq_2 Let_def)

lemma handle_invalid_path:
  assumes "parseProxyPath (Path (URL req)) = Inr (uri, False)"
  shows "handle p w req nt =
           Some (Inr \<lparr>proxy = p, writer = http_Error w ''invalid proxy path'' 500,
                      request = req, network = nt\<rparr>)"
  using assms by (simp add: handle_def)

text \<open>
  When the first attempt on a cache miss is answered with a status that the writer
  accepts, other than 5xx, and no redirect was followed, the response has been streamed
  and the handler goes on with the backup step.
\<close>

lemma handle_miss_without_redirect:
  assumes "parseProxyPath (Path (URL req)) = Inr (uri, True)"
    and "redirects p uri = None"
    and "client_Do ((client p)\<lparr>CheckRedirect := Some checkRedirect\<rparr>) (retarget req uri)
           (world nt, None) = Some ((Some resp, None), reqs, wd1, None)"
    and "StatusCode resp sdiv 100 \<noteq> 5"
    and "wroteHeader w \<or> (100 \<le> StatusCode resp \<and> StatusCode resp \<le> 999)"
  shows "handle p w req nt =
           handle_backup p (streamed w resp) (retarget req uri) uri
             \<lparr>world = wd1, exchanges = exchanges nt @
                [\<lparr>ex_reqs = reqs, ex_resp = Some resp, ex_err = None\<rparr>]\<rparr>"
  by (simp add: handle_miss[OF assms(1,2)] serveRequest_ok[OF assms(3,4,5)])

subsection \<open>The test bench evaluated\<close>

lemma copyHeader_fun:
  "copyHeader dst src = (\<lambda>k. dst k @ concat (map snd (filter (\<lambda>kv. fst kv = k) src)))"
  by (rule ext) (rule copyHeader_apply)

lemmas eval_defs =
  handle_def handle_backup_def serveRequest_def client_Do_def do_loop.simps
  parseProxyPath_def redirectOf_def setRedirect_def checkRedirect_def
  defaultCheckRedirect_def numeral_2_eq_2 Let_def http_Error_def
  w_WriteHeader_def w_Write_def copyHeader_fun

lemmas ex_defs =
  ex_url_def ex_reply_def ex_transport_def ex_req_def ex_w_def ex_net_def ex_res_def

lemma ex_proxy_eq:
  "ex_proxy = \<lparr>proxyHost = [], server = None, init = False,
       strategies = ex_strategies,
       redirects = Map.empty,
       client = \<lparr>Transport = ex_transport, CheckRedirect = None, ClientTimeout = 0\<rparr>\<rparr>"
  by (simp add: ex_proxy_def run_def ex_ops_def ex_strategy_def ex_lib_def NewQcdnProxy_def
        SetStrategy_def urlBaseOf_def ex_url_def ex_strategies_def ex_origin_def ex_backup_def)

lemma ex_handle_f:
  "handle ex_proxy ex_w (ex_req ''/http,f/x'') \<lparr>world = n, exchanges = []\<rparr> =
     Some (Inr \<lparr>proxy = setRedirect ex_proxy (ex_res ''f'' ''/x'') (ex_res ''c'' ''/x''),
                writer = streamed ex_w (ex_reply 200 ''final''),
                request = retarget (ex_req ''/http,f/x'') (ex_res ''c'' ''/x''),
                network = \<lparr>world = n + 3, exchanges =
                  [\<lparr>ex_reqs = [retarget (ex_req ''/http,f/x'') (ex_res ''f'' ''/x'')],
                    ex_resp = Some (ex_reply 500 ''fail''), ex_err = None\<rparr>,
                   \<lparr>ex_reqs = [retarget (ex_req ''/http,f/x'') (ex_res ''c'' ''/x''),
                               \<lparr>URL = ex_url ''d'' ''/z'', ReqHost = [], RequestURI = []\<rparr>],
                    ex_resp = Some (ex_reply 200 ''final''), ex_err = None\<rparr>]\<rparr>\<rparr>)"
  by (simp add: ex_proxy_eq eval_defs ex_defs ex_strategies_def ex_origin_def ex_backup_def
        retarget_def streamed_def)

lemma ex_proxy2_eq:
  "ex_proxy2 = setRedirect ex_proxy (ex_res ''f'' ''/x'') (ex_res ''c'' ''/x'')"
proof -
  have "ex_proxy2 = exec ex_lib ex_proxy (OpHandle ex_w (ex_req ''/http,f/x'') 0)"
    by (simp add: ex_proxy2_def ex_proxy_def run_def)
  then show ?thesis by (simp add: ex_handle_f)
qed

lemma ex_handle2_f:
  "handle ex_proxy2 ex_w (ex_req ''/http,f/x'') ex_net =
     Some (Inr \<lparr>proxy = ex_proxy2,
                writer = streamed ex_w (ex_reply 200 ''final''),
                request = retarget (ex_req ''/http,f/x'') (ex_res ''c'' ''/x''),
                network = \<lparr>world = 2, exchanges =
                  [\<lparr>ex_reqs = [retarget (ex_req ''/http,f/x'') (ex_res ''c'' ''/x''),
                               \<lparr>URL = ex_url ''d'' ''/z'', ReqHost = [], RequestURI = []\<rparr>],
                    ex_resp = Some (ex_reply 200 ''final''), ex_err = None\<rparr>]\<rparr>\<rparr>)"
  by (simp add: ex_proxy2_eq ex_proxy_eq eval_defs ex_defs ex_strategies_def ex_origin_def
        ex_backup_def retarget_def streamed_def)

lemma ex_client_proxy2:
  "client ex_proxy2 = \<lparr>Transport = ex_transport, CheckRedirect = None, ClientTimeout = 0\<rparr>"
  by (simp add: ex_proxy2_eq ex_proxy_eq setRedirect_def)

lemma ex_Do_c:
  "client_Do \<lparr>Transport = ex_transport, CheckRedirect = None, ClientTimeout = 0\<rparr>
      (retarget rq (ex_res ''c'' ''/x'')) (n, None) =
     Some ((Some (ex_reply 200 ''final''), None),
           [retarget rq (ex_res ''c'' ''/x''),
            \<lparr>URL = ex_url ''d'' ''/z'', ReqHost = [], RequestURI = []\<rparr>], n + 2, None)"
  by (simp add: client_Do_def do_loop.simps defaultCheckRedirect_def Let_def ex_defs retarget_def)

lemma ex_parse_f:
  "parseProxyPath (Path (URL (ex_req ''/http,f/x''))) = Inr (ex_res ''f'' ''/x'', True)"
  by (simp add: parseProxyPath_def ex_req_def ex_res_def numeral_2_eq_2)


lemma ex_Do_loop:
  "client_Do \<lparr>Transport = ex_transport, CheckRedirect = Some checkRedirect, ClientTimeout = 0\<rparr>
      (retarget rq (ex_res ''loop'' ''/x'')) (0, None) =
     Some ((Some (ex_reply 302 []), Some ''stopped after 10 redirects''),
           retarget rq (ex_res ''loop'' ''/x'') #
             replicate 9 \<lparr>URL = ex_url ''loop'' ''/again'', ReqHost = [], RequestURI = []\<rparr>,
           10, Some \<lparr>URL = ex_url ''loop'' ''/again'', ReqHost = [], RequestURI = []\<rparr>)"
  by (simp add: client_Do_def do_loop.simps checkRedirect_def Let_def ex_defs retarget_def
        numeral_eq_Suc)

text \<open>The justifying invocation of the test bench, evaluated.\<close>

lemma ex_resolves:
  "resolves ex_proxy (OpHandle ex_w (ex_req ''/http,f/x'') 0) (ex_res ''f'' ''/x'')"
  using ex_handle_f[of 0] ex_parse_f
  by (simp add: resolves_def fetch_ok_def to_backup_def observed_redirect_def targets_def
        ex_proxy_eq ex_strategies_def ex_origin_def ex_backup_def ex_res_def ex_reply_def
        retarget_def ex_req_def)

text \<open>The origin \<open>g\<close> with the backup \<open>t\<close>.\<close>

lemma ex_proxy_g_eq:
  "ex_proxy_g = ex_proxy\<lparr>strategies := ex_strategies(ex_origin ''g'' \<mapsto> ex_backup ''t'')\<rparr>"
proof -
  have "ex_proxy_g = exec ex_lib ex_proxy (OpSetStrategy ''http://g'' (ex_strategy ''http://t''))"
    by (simp add: ex_proxy_g_def ex_proxy_def run_def)
  then show ?thesis
    by (simp add: ex_proxy_eq SetStrategy_def urlBaseOf_def ex_lib_def ex_strategy_def ex_url_def
          ex_origin_def ex_backup_def)
qed



lemma ex_Do_t:
  "client_Do \<lparr>Transport = ex_transport, CheckRedirect = None, ClientTimeout = 0\<rparr>
      (retarget rq (ex_res ''t'' ''/x'')) (n, None) =
     Some ((Some (ex_reply (if n < 2 then 200 else 42) ''turn''), None),
           [retarget rq (ex_res ''t'' ''/x'')], Suc n, None)"
  by (simp add: client_Do_def do_loop.simps Let_def ex_defs retarget_def)

lemma ex_handle_g:
  "handle ex_proxy_g ex_w (ex_req ''/http,g/x'') \<lparr>world = 0, exchanges = []\<rparr> =
     Some (Inr \<lparr>proxy = setRedirect ex_proxy_g (ex_res ''g'' ''/x'') (ex_res ''t'' ''/x''),
                writer = streamed ex_w (ex_reply 200 ''turn''),
                request = retarget (ex_req ''/http,g/x'') (ex_res ''t'' ''/x''),
                network = \<lparr>world = 2, exchanges =
                  [\<lparr>ex_reqs = [retarget (ex_req ''/http,g/x'') (ex_res ''g'' ''/x'')],
                    ex_resp = None, ex_err = Some ''no such host''\<rparr>,
                   \<lparr>ex_reqs = [retarget (ex_req ''/http,g/x'') (ex_res ''t'' ''/x'')],
                    ex_resp = Some (ex_reply 200 ''turn''), ex_err = None\<rparr>]\<rparr>\<rparr>)"
  by (simp add: ex_proxy_g_eq ex_proxy_eq eval_defs ex_defs ex_strategies_def ex_origin_def
        ex_backup_def retarget_def streamed_def)

lemma ex_proxy_g2_eq:
  "ex_proxy_g2 = setRedirect ex_proxy_g (ex_res ''g'' ''/x'') (ex_res ''t'' ''/x'')"
proof -
  have "ex_proxy_g2 = exec ex_lib ex_proxy_g (OpHandle ex_w (ex_req ''/http,g/x'') 0)"
    by (simp add: ex_proxy_g2_def ex_proxy_g_def run_def)
  then show ?thesis by (simp add: ex_handle_g)
qed


lemma ex_handle_g2_panic:
  "handle ex_proxy_g2 ex_w (ex_req ''/http,g/x'') ex_net5 =
     Some (Inl (Panic ''invalid WriteHeader code''))"
  by (simp add: ex_proxy_g2_eq ex_proxy_g_eq ex_proxy_eq eval_defs ex_defs ex_net5_def
        ex_strategies_def ex_origin_def ex_backup_def)

subsection \<open>Claims about the handler\<close>

text \<open>
  Claim C1 (evaluation of the handler where the claim fails). Origin \<open>a\<close> answers the
  first attempt with status 200 and no redirect. The handler streams that response, and
  then goes on to the backup step: it sends a second request, to the backup origin \<open>b\<close>,
  and writes the backup's response to the same client.
\<close>

theorem primary_ok_then_backup:
  "upstream_requests (handle ex_proxy ex_w (ex_req ''/http,a/x'') ex_net) =
     [retarget (ex_req ''/http,a/x'') (ex_res ''a'' ''/x''),
      retarget (ex_req ''/http,a/x'') (ex_res ''b'' ''/x'')] \<and>
   client_sees (handle ex_proxy ex_w (ex_req ''/http,a/x'') ex_net) =
     [WriteHeader 200, Write ''ok'', WriteHeader 200, Write ''backup'']"
  by (simp add: upstream_requests_def client_sees_def ex_proxy_eq eval_defs ex_defs
        ex_strategies_def ex_origin_def ex_backup_def retarget_def)

text \<open>
  Claim C3 as stated fails, in two ways. On a cache hit the handler uses the proxy's
  client with the default redirect policy: the cached resource \<open>/x\<close> of origin \<open>c\<close>
  answers with a redirect to origin \<open>d\<close>; the handler follows it, so two requests go
  upstream and the client sees the response of \<open>d\<close>. And a response that is received and
  is not a 5xx is not always streamed back: the cached resource \<open>/x\<close> of origin \<open>t\<close>
  answers with the status line \<^verbatim>\<open>042\<close>, and the handler panics in \<^verbatim>\<open>WriteHeader\<close>.
\<close>

theorem cache_hit_follows_redirects:
  "redirects ex_proxy2 (ex_res ''f'' ''/x'') = Some (ex_res ''c'' ''/x'') \<and>
   upstream_requests (handle ex_proxy2 ex_w (ex_req ''/http,f/x'') ex_net) =
     [retarget (ex_req ''/http,f/x'') (ex_res ''c'' ''/x''),
      \<lparr>URL = ex_url ''d'' ''/z'', ReqHost = [], RequestURI = []\<rparr>] \<and>
   client_sees (handle ex_proxy2 ex_w (ex_req ''/http,f/x'') ex_net) =
     [WriteHeader 200, Write ''final''] \<and>
   redirects ex_proxy_g2 (ex_res ''g'' ''/x'') = Some (ex_res ''t'' ''/x'') \<and>
   client_Do (client ex_proxy_g2) (retarget (ex_req ''/http,g/x'') (ex_res ''t'' ''/x''))
       (world ex_net5, None) =
     Some ((Some (ex_reply 42 ''turn''), None),
           [retarget (ex_req ''/http,g/x'') (ex_res ''t'' ''/x'')], 6, None) \<and>
   handle ex_proxy_g2 ex_w (ex_req ''/http,g/x'') ex_net5 =
     Some (Inl (Panic ''invalid WriteHeader code''))"
proof -
  have "redirects ex_proxy2 (ex_res ''f'' ''/x'') = Some (ex_res ''c'' ''/x'')"
    by (simp add: ex_proxy2_eq setRedirect_def)
  moreover have "upstream_requests (handle ex_proxy2 ex_w (ex_req ''/http,f/x'') ex_net) =
     [retarget (ex_req ''/http,f/x'') (ex_res ''c'' ''/x''),
      \<lparr>URL = ex_url ''d'' ''/z'', ReqHost = [], RequestURI = []\<rparr>]"
    by (simp add: ex_handle2_f upstream_requests_def)
  moreover have "client_sees (handle ex_proxy2 ex_w (ex_req ''/http,f/x'') ex_net) =
     [WriteHeader 200, Write ''final'']"
    by (simp add: ex_handle2_f client_sees_def) (simp add: streamed_def ex_w_def ex_reply_def)
  moreover have "redirects ex_proxy_g2 (ex_res ''g'' ''/x'') = Some (ex_res ''t'' ''/x'')"
    by (simp add: ex_proxy_g2_eq setRedirect_def)
  moreover have "client_Do (client ex_proxy_g2)
       (retarget (ex_req ''/http,g/x'') (ex_res ''t'' ''/x'')) (world ex_net5, None) =
     Some ((Some (ex_reply 42 ''turn''), None),
           [retarget (ex_req ''/http,g/x'') (ex_res ''t'' ''/x'')], 6, None)"
    using ex_Do_t[of "ex_req ''/http,g/x''" 5]
    by (simp add: ex_proxy_g2_eq ex_proxy_g_eq ex_proxy_eq setRedirect_def ex_net5_def)
  ultimately show ?thesis using ex_handle_g2_panic by blast
qed

text \<open>
  Claim C3, amended. For every request whose decoded resource has an entry in the
  redirect cache, the handler points the request at the cached resource and calls
  \<^verbatim>\<open>client.Do\<close> for it, once, with the proxy's own client, whose redirect policy is
  the default one: redirects are followed, the call returns, and it has sent at least
  one and at most 10 requests, the first of them to the cached resource. If the call
  returns a response without an error whose status is not 5xx and is one the response
  writer accepts (from 100 to 999, or any status when the status line has been written
  before), the response is streamed back verbatim (for every key the values of the
  response's header, the status, the body), nothing else is written, no other call is
  made, the cache is unchanged, and the handler stops. For a status that is not 5xx
  and that the writer does not accept the handler panics; after an error or a 5xx
  status it goes on with the backup step, having written nothing.
\<close>

theorem handle_cache_hit:
  assumes "parseProxyPath (Path (URL req)) = Inr (uri, True)"
    and "redirects p uri = Some r"
    and "CheckRedirect (client p) = None"
  shows "\<exists>resp err reqs wd' l'.
           client_Do (client p) (retarget req r) (world nt, None) =
             Some ((resp, err), reqs, wd', l') \<and>
           reqs \<noteq> [] \<and> hd reqs = retarget req r \<and> length reqs \<le> 10 \<and>
           handle p w req nt =
            (case (err, resp) of
               (None, Some rsp) \<Rightarrow>
                 if StatusCode rsp sdiv 100 = 5 then
                   handle_backup p w (retarget req r) uri
                     \<lparr>world = wd', exchanges = exchanges nt @
                        [\<lparr>ex_reqs = reqs, ex_resp = resp, ex_err = err\<rparr>]\<rparr>
                 else if wroteHeader w \<or> (100 \<le> StatusCode rsp \<and> StatusCode rsp \<le> 999) then
                   Some (Inr \<lparr>proxy = p, writer = streamed w rsp, request = retarget req r,
                              network = \<lparr>world = wd', exchanges = exchanges nt @
                                [\<lparr>ex_reqs = reqs, ex_resp = resp, ex_err = err\<rparr>]\<rparr>\<rparr>)
                 else Some (Inl (Panic ''invalid WriteHeader code''))
             | _ \<Rightarrow>
                 handle_backup p w (retarget req r) uri
                   \<lparr>world = wd', exchanges = exchanges nt @
                      [\<lparr>ex_reqs = reqs, ex_resp = resp, ex_err = err\<rparr>]\<rparr>)"
proof -
  have "RequestURI (retarget req r) = []" by (simp add: retarget_def)
  from client_Do_default[OF assms(3) this, of "world nt" None]
  obtain resp err reqs wd' l' where
    d: "client_Do (client p) (retarget req r) (world nt, None) = Some ((resp, err), reqs, wd', l')"
    and s: "reqs \<noteq> [] \<and> hd reqs = retarget req r \<and> length reqs \<le> 10"
    by blast
  from handle_hit_Do[OF assms(1,2) d, of w] d s show ?thesis by blast
qed

theorem handle_cache_hit_witness:
  "handle ex_proxy2 ex_w (ex_req ''/http,f/x'') ex_net =
     Some (Inr \<lparr>proxy = ex_proxy2, writer = streamed ex_w (ex_reply 200 ''final''),
                request = retarget (ex_req ''/http,f/x'') (ex_res ''c'' ''/x''),
                network = \<lparr>world = 2, exchanges =
                  [\<lparr>ex_reqs = [retarget (ex_req ''/http,f/x'') (ex_res ''c'' ''/x''),
                               \<lparr>URL = ex_url ''d'' ''/z'', ReqHost = [], RequestURI = []\<rparr>],
                    ex_resp = Some (ex_reply 200 ''final''), ex_err = None\<rparr>]\<rparr>\<rparr>)"
proof -
  have h1: "parseProxyPath (Path (URL (ex_req ''/http,f/x''))) = Inr (ex_res ''f'' ''/x'', True)"
    by (simp add: parseProxyPath_def ex_req_def ex_res_def numeral_2_eq_2)
  have h2: "redirects ex_proxy2 (ex_res ''f'' ''/x'') = Some (ex_res ''c'' ''/x'')"
    by (simp add: ex_proxy2_eq setRedirect_def)
  have h3: "CheckRedirect (client ex_proxy2) = None"
    by (simp add: ex_client_proxy2)
  have d: "client_Do (client ex_proxy2) (retarget (ex_req ''/http,f/x'') (ex_res ''c'' ''/x''))
              (world ex_net, None) =
            Some ((Some (ex_reply 200 ''final''), None),
                  [retarget (ex_req ''/http,f/x'') (ex_res ''c'' ''/x''),
                   \<lparr>URL = ex_url ''d'' ''/z'', ReqHost = [], RequestURI = []\<rparr>], 2, None)"
    using ex_Do_c[of "ex_req ''/http,f/x''" 0] by (simp add: ex_client_proxy2 ex_net_def)
  from handle_cache_hit[OF h1 h2 h3, of ex_net ex_w] d
  have "handle ex_proxy2 ex_w (ex_req ''/http,f/x'') ex_net =
     (if wroteHeader ex_w \<or>
         (100 \<le> StatusCode (ex_reply 200 ''final'') \<and> StatusCode (ex_reply 200 ''final'') \<le> 999)
      then Some (Inr \<lparr>proxy = ex_proxy2, writer = streamed ex_w (ex_reply 200 ''final''),
                request = retarget (ex_req ''/http,f/x'') (ex_res ''c'' ''/x''),
                network = \<lparr>world = 2, exchanges = exchanges ex_net @
                  [\<lparr>ex_reqs = [retarget (ex_req ''/http,f/x'') (ex_res ''c'' ''/x''),
                               \<lparr>URL = ex_url ''d'' ''/z'', ReqHost = [], RequestURI = []\<rparr>],
                    ex_resp = Some (ex_reply 200 ''final''), ex_err = None\<rparr>]\<rparr>\<rparr>)
      else Some (Inl (Panic ''invalid WriteHeader code'')))"
    by (auto simp add: ex_reply_def)
  then show ?thesis by (simp add: ex_net_def ex_reply_def)
qed




text \<open>
  Claim C9. The redirect policy that the handler installs for the first attempt on a
  cache miss returns an error exactly when the list of prior requests has length 10 or
  more. When \<^verbatim>\<open>client.Do\<close> is stopped by the policy (it then returns the last redirect
  response together with the error), exactly 10 requests have been sent, nothing has
  been written to the client, and the handler continues with the backup step.
\<close>

theorem redirect_bound:
  assumes "parseProxyPath (Path (URL req)) = Inr (uri, True)"
    and "redirects p uri = None"
    and "client_Do ((client p)\<lparr>CheckRedirect := Some checkRedirect\<rparr>) (retarget req uri)
           (world nt, None) = Some ((Some resp, Some e), reqs, wd1, l1)"
  shows "(fst (checkRedirect rq via l) \<noteq> None \<longleftrightarrow> 10 \<le> length via)
       \<and> length reqs = 10 \<and> e = ''stopped after 10 redirects''
       \<and> handle p w req nt =
           handle_backup p w (retarget req uri) uri
             \<lparr>world = wd1, exchanges = exchanges nt @
                [\<lparr>ex_reqs = reqs, ex_resp = Some resp, ex_err = Some e\<rparr>]\<rparr>"
proof -
  have 1: "fst (checkRedirect rq via l) \<noteq> None \<longleftrightarrow> 10 \<le> length via"
    by (simp add: checkRedirect_def)
  have 2: "length reqs = 10 \<and> e = ''stopped after 10 redirects''"
    using do_loop_stopped[OF assms(3)[unfolded client_Do_def], of resp e] by simp
  have 3: "handle p w req nt =
           handle_backup p w (retarget req uri) uri
             \<lparr>world = wd1, exchanges = exchanges nt @
                [\<lparr>ex_reqs = reqs, ex_resp = Some resp, ex_err = Some e\<rparr>]\<rparr>"
    by (simp add: handle_miss[OF assms(1,2)] serveRequest_stopped[OF assms(3)])
  from 1 2 3 show ?thesis by blast
qed

theorem redirect_bound_witness:
  "length (retarget (ex_req ''/http,loop/x'') (ex_res ''loop'' ''/x'') #
      replicate 9 \<lparr>URL = ex_url ''loop'' ''/again'', ReqHost = [], RequestURI = []\<rparr>) = 10
   \<and> handle ex_proxy ex_w (ex_req ''/http,loop/x'') ex_net =
       handle_backup ex_proxy ex_w (retarget (ex_req ''/http,loop/x'') (ex_res ''loop'' ''/x''))
         (ex_res ''loop'' ''/x'')
         \<lparr>world = 10, exchanges =
            [\<lparr>ex_reqs = retarget (ex_req ''/http,loop/x'') (ex_res ''loop'' ''/x'') #
                 replicate 9 \<lparr>URL = ex_url ''loop'' ''/again'', ReqHost = [], RequestURI = []\<rparr>,
              ex_resp = Some (ex_reply 302 []),
              ex_err = Some ''stopped after 10 redirects''\<rparr>]\<rparr>"
proof -
  have h1: "parseProxyPath (Path (URL (ex_req ''/http,loop/x''))) = Inr (ex_res ''loop'' ''/x'', True)"
    by (simp add: parseProxyPath_def ex_req_def ex_res_def numeral_2_eq_2)
  have h2: "redirects ex_proxy (ex_res ''loop'' ''/x'') = None"
    by (simp add: ex_proxy_eq)
  have h4: "client_Do ((client ex_proxy)\<lparr>CheckRedirect := Some checkRedirect\<rparr>)
              (retarget (ex_req ''/http,loop/x'') (ex_res ''loop'' ''/x'')) (world ex_net, None) =
            Some ((Some (ex_reply 302 []), Some ''stopped after 10 redirects''),
                  retarget (ex_req ''/http,loop/x'') (ex_res ''loop'' ''/x'') #
                    replicate 9 \<lparr>URL = ex_url ''loop'' ''/again'', ReqHost = [], RequestURI = []\<rparr>,
                  10, Some \<lparr>URL = ex_url ''loop'' ''/again'', ReqHost = [], RequestURI = []\<rparr>)"
    using ex_Do_loop[of "ex_req ''/http,loop/x''"] by (simp add: ex_proxy_eq ex_net_def)
  note t = redirect_bound[OF h1 h2 h4, where w = ex_w and via = "[]" and l = None
         and rq = "ex_req []"]
  have c: "exchanges ex_net = []" by (simp add: ex_net_def)
  from t have a: "handle ex_proxy ex_w (ex_req ''/http,loop/x'') ex_net =
       handle_backup ex_proxy ex_w (retarget (ex_req ''/http,loop/x'') (ex_res ''loop'' ''/x''))
         (ex_res ''loop'' ''/x'')
         \<lparr>world = 10, exchanges =
            [\<lparr>ex_reqs = retarget (ex_req ''/http,loop/x'') (ex_res ''loop'' ''/x'') #
                 replicate 9 \<lparr>URL = ex_url ''loop'' ''/again'', ReqHost = [], RequestURI = []\<rparr>,
              ex_resp = Some (ex_reply 302 []),
              ex_err = Some ''stopped after 10 redirects''\<rparr>]\<rparr>"
    by (simp add: c)
  have "length (retarget (ex_req ''/http,loop/x'') (ex_res ''loop'' ''/x'') #
      replicate 9 \<lparr>URL = ex_url ''loop'' ''/again'', ReqHost = [], RequestURI = []\<rparr>) = 10"
    by simp
  with a show ?thesis by blast
qed

text \<open>
  Claim C7 (evaluation of the handler where the claim fails). The empty path has no
  second slash, so it cannot be decoded; the handler does not answer with a server
  error but panics in the slice expression of \<^verbatim>\<open>parseProxyPath\<close>.
\<close>

theorem handle_empty_path_panics:
  "handle p w \<lparr>URL = \<lparr>Scheme = sch, Host = hst, Path = [], RawQuery = q\<rparr>,
               ReqHost = h, RequestURI = ru\<rparr> nt =
     Some (Inl (RuntimeError ''slice bounds out of range [1:0]''))"
  by (simp add: handle_def parseProxyPath_def)

subsection \<open>Claims about the redirect cache\<close>

text \<open>
  Claim C6. The reachable states of a proxy are those that a sequence of operations
  produces from a new proxy. If a key is in the redirect cache of a reachable state,
  then one of the operations of the sequence is a handler invocation whose proxy path
  decodes to that key and which, in the state it ran in, completed a call of
  \<^verbatim>\<open>client.Do\<close> that returned a response without error and without a 5xx status and
  that either began at the key's resource and followed a redirect or began at the
  backup origin configured for the key. An operation other than the handler leaves the
  cache as it is, and no operation removes a key.
\<close>

theorem redirect_cache_invariant:
  "(k \<in> dom (redirects (run lib conf ops)) \<longrightarrow>
      (\<exists>i<length ops. resolves (run lib conf (take i ops)) (ops ! i) k))
   \<and> (\<not> is_handle op \<longrightarrow> redirects (exec lib p op) = redirects p)
   \<and> dom (redirects p) \<subseteq> dom (redirects (exec lib p op))"
  using run_cache_justified[of k lib conf ops] exec_other_redirects[of op lib p]
    exec_dom_mono[of p lib op]
  by blast

theorem redirect_cache_invariant_witness:
  "ex_res ''f'' ''/x'' \<in> dom (redirects (run ex_lib None (ex_ops @ [OpHandle ex_w (ex_req ''/http,f/x'') 0])))
   \<and> (\<exists>i<length (ex_ops @ [OpHandle ex_w (ex_req ''/http,f/x'') 0]).
         resolves (run ex_lib None (take i (ex_ops @ [OpHandle ex_w (ex_req ''/http,f/x'') 0])))
           ((ex_ops @ [OpHandle ex_w (ex_req ''/http,f/x'') 0]) ! i) (ex_res ''f'' ''/x''))
   \<and> \<not> is_handle (OpClose :: nat op)
   \<and> redirects (exec ex_lib ex_proxy2 OpClose) = redirects ex_proxy2"
proof -
  have 1: "ex_res ''f'' ''/x'' \<in>
             dom (redirects (run ex_lib None (ex_ops @ [OpHandle ex_w (ex_req ''/http,f/x'') 0])))"
    using ex_proxy2_eq by (simp add: ex_proxy2_def setRedirect_def)
  have 2: "\<not> is_handle (OpClose :: nat op)" by simp
  from redirect_cache_invariant[of "ex_res ''f'' ''/x''" ex_lib None
         "ex_ops @ [OpHandle ex_w (ex_req ''/http,f/x'') 0]" OpClose ex_proxy2] 1 2
  show ?thesis by blast
qed

subsection \<open>Claims about configuration and URL building\<close>

text \<open>
  Claim C5. \<^verbatim>\<open>MakeVodURL\<close> returns its argument unchanged, whatever \<^verbatim>\<open>bootLen\<close> is,
  when the URL does not parse or when the strategy table has no entry for its scheme
  and host; the proxy is left as it was (no server is started).
\<close>

theorem MakeVodURL_unchanged:
  assumes "url_Parse lib u = None \<or>
           (\<exists>url. url_Parse lib u = Some url \<and>
                  strategies p \<lparr>scheme = Scheme url, host = Host url\<rparr> = None)"
  shows "MakeVodURL lib p u bootLen = (u, p)"
  using assms by (auto simp: MakeVodURL_def)

theorem MakeVodURL_unchanged_witness:
  "MakeVodURL ex_lib ex_proxy ''::'' 0 = (''::'', ex_proxy) \<and>
   MakeVodURL ex_lib ex_proxy ''http://other/x'' 7 = (''http://other/x'', ex_proxy)"
proof -
  have 1: "url_Parse ex_lib ''::'' = None" by (simp add: ex_lib_def)
  have 2: "url_Parse ex_lib ''http://other/x'' = Some (ex_url ''other'' ''/x'') \<and>
           strategies ex_proxy \<lparr>scheme = Scheme (ex_url ''other'' ''/x''),
                                 host = Host (ex_url ''other'' ''/x'')\<rparr> = None"
    by (simp add: ex_lib_def ex_proxy_eq ex_strategies_def ex_origin_def ex_backup_def ex_url_def)
  from 1 have "MakeVodURL ex_lib ex_proxy ''::'' 0 = (''::'', ex_proxy)"
    by (intro MakeVodURL_unchanged) simp
  moreover from 2 have "MakeVodURL ex_lib ex_proxy ''http://other/x'' 7 = (''http://other/x'', ex_proxy)"
    by (intro MakeVodURL_unchanged) blast
  ultimately show ?thesis by blast
qed

text \<open>
  Claim C8. \<^verbatim>\<open>SetStrategy\<close> panics when the origin URL, the backup URL or the boot URL
  parses to a URL with a non-empty path, and the proxy, its strategy table included, is
  then as it was before the call.
\<close>

theorem SetStrategy_panics:
  assumes "(\<exists>url. url_Parse lib originURL = Some url \<and> Path url \<noteq> []) \<or>
           (\<exists>url. url_Parse lib (Backup s) = Some url \<and> Path url \<noteq> []) \<or>
           (\<exists>url. url_Parse lib (Boot s) = Some url \<and> Path url \<noteq> [])"
  shows "SetStrategy lib p originURL (Some s) = (Some (Panic ''invalid urlBase''), p)"
  using assms
  by (auto simp: SetStrategy_def urlBaseOf_def split: option.splits sum.splits if_splits)

theorem SetStrategy_panics_witness:
  "SetStrategy ex_lib ex_proxy ''http://a/x'' (ex_strategy ''http://b'') =
     (Some (Panic ''invalid urlBase''), ex_proxy) \<and>
   SetStrategy ex_lib ex_proxy ''http://a'' (ex_strategy ''http://b/'') =
     (Some (Panic ''invalid urlBase''), ex_proxy) \<and>
   SetStrategy ex_lib ex_proxy ''http://a'' (Some \<lparr>Backup = ''http://b'', Boot = ''http://b/''\<rparr>) =
     (Some (Panic ''invalid urlBase''), ex_proxy)"
proof -
  have 1: "url_Parse ex_lib ''http://a/x'' = Some (ex_url ''a'' ''/x'') \<and> Path (ex_url ''a'' ''/x'') \<noteq> []"
    by (simp add: ex_lib_def ex_url_def)
  have 2: "url_Parse ex_lib ''http://b/'' = Some (ex_url ''b'' ''/'') \<and> Path (ex_url ''b'' ''/'') \<noteq> []"
    by (simp add: ex_lib_def ex_url_def)
  from 1 have "SetStrategy ex_lib ex_proxy ''http://a/x'' (Some \<lparr>Backup = ''http://b'', Boot = []\<rparr>) =
     (Some (Panic ''invalid urlBase''), ex_proxy)"
    by (intro SetStrategy_panics) blast
  moreover from 2 have "SetStrategy ex_lib ex_proxy ''http://a'' (Some \<lparr>Backup = ''http://b/'', Boot = []\<rparr>) =
     (Some (Panic ''invalid urlBase''), ex_proxy)"
    by (intro SetStrategy_panics) simp
  moreover from 2 have "SetStrategy ex_lib ex_proxy ''http://a'' (Some \<lparr>Backup = ''http://b'', Boot = ''http://b/''\<rparr>) =
     (Some (Panic ''invalid urlBase''), ex_proxy)"
    by (intro SetStrategy_panics) simp
  ultimately show ?thesis by (simp add: ex_strategy_def)
qed

end
